theory Spec2Isabelle
  imports Main "HOL-Library.Word"
begin

unbundle bit_operations_syntax

section \<open>Error numbers\<close>

text \<open>The two errno values the library generates itself (Linux \<open>errno.h\<close>).\<close>

definition EINVAL :: int where
  "EINVAL = 22"

definition ENOMEM :: int where
  "ENOMEM = 12"

section \<open>UMP handles over the raw-MIDI layer (rawmidi/ump.c)\<close>

subsection \<open>The world the UMP functions act on\<close>

text \<open>
  The raw-MIDI layer and the C allocator are outside the sources. Every call into them
  is recorded in a trace, and what they answer is taken from an oracle that may depend
  on everything that happened before. The event of an info query also keeps the answer.
  A raw-MIDI handle is a number; a pointer that may be \<open>NULL\<close> is an option.
\<close>

datatype event =
    Alloc nat
  | Free nat
  | RawOpen bool bool string int
  | Acquire nat
  | RawClose "nat option"
  | RawInfo "nat option" int "32 word"
  | RawWrite "nat option" nat nat
  | RawRead "nat option" nat nat
  | RawTread "nat option" nat nat nat

record world =
  next_addr :: nat
  next_handle :: nat
  trace :: "event list"

text \<open>
  \<open>snd_ump_t\<close>: the wrapped raw-MIDI handle, the direction flag and the cached info
  flags. \<open>self\<close> is the address \<open>calloc\<close> returned for the struct, kept so that
  \<open>free\<close> can be traced.
\<close>

record snd_ump =
  self :: nat
  rawmidi :: "nat option"
  is_input :: int
  flags :: "32 word"

text \<open>
  The oracle. \<open>INFO_UMP\<close> stands for \<open>SNDRV_RAWMIDI_INFO_UMP\<close> and \<open>OPEN_UMP\<close> for
  \<open>_SND_RAWMIDI_OPEN_UMP\<close>; both are declared in headers that are not part of the
  sources, so they are parameters.
\<close>

record rawmidi_layer =
  calloc_ok :: "world \<Rightarrow> bool"
  open_res :: "world \<Rightarrow> bool \<Rightarrow> bool \<Rightarrow> string \<Rightarrow> int \<Rightarrow> int \<times> bool \<times> bool"
  info_res :: "world \<Rightarrow> nat option \<Rightarrow> int \<times> 32 word"
  close_res :: "world \<Rightarrow> nat option \<Rightarrow> int"
  write_res :: "world \<Rightarrow> nat option \<Rightarrow> nat \<Rightarrow> nat \<Rightarrow> int"
  read_res :: "world \<Rightarrow> nat option \<Rightarrow> nat \<Rightarrow> nat \<Rightarrow> int"
  tread_res :: "world \<Rightarrow> nat option \<Rightarrow> nat \<Rightarrow> nat \<Rightarrow> nat \<Rightarrow> int"
  INFO_UMP :: "32 word"
  OPEN_UMP :: int

definition emit :: "event list \<Rightarrow> world \<Rightarrow> world" where
  "emit es w = w\<lparr>trace := trace w @ es\<rparr>"

text \<open>\<open>calloc(1, sizeof(snd_ump_t))\<close>: a zeroed struct at a fresh address, or \<open>NULL\<close>.\<close>

definition calloc_ump :: "rawmidi_layer \<Rightarrow> world \<Rightarrow> snd_ump option \<times> world" where
  "calloc_ump env w =
     (if calloc_ok env w
      then (Some \<lparr>self = next_addr w, rawmidi = None, is_input = 0, flags = 0\<rparr>,
            emit [Alloc (next_addr w)] (w\<lparr>next_addr := Suc (next_addr w)\<rparr>))
      else (None, w))"

definition free_ump :: "snd_ump \<Rightarrow> world \<Rightarrow> world" where
  "free_ump u w = emit [Free (self u)] w"

text \<open>
  Modelled from the spec: the raw-MIDI layer is an external collaborator that provides
  open, close, info, read and write primitives on raw-MIDI handles; its code is not in
  the sources. \<open>snd_rawmidi_open(inputp, outputp, name, mode)\<close>: on success (a result
  that is not negative) every requested slot receives a fresh handle; on failure the
  oracle says which requested slots are left holding a handle that the caller has to
  close. The other primitives answer what the oracle says.
\<close>

definition snd_rawmidi_open ::
  "rawmidi_layer \<Rightarrow> bool \<Rightarrow> bool \<Rightarrow> string \<Rightarrow> int \<Rightarrow> world
     \<Rightarrow> int \<times> nat option \<times> nat option \<times> world" where
  "snd_rawmidi_open env inputp outputp name mode w =
     (let (err, fin, fout) = open_res env w inputp outputp name mode;
          gin = (inputp \<and> (0 \<le> err \<or> fin));
          gout = (outputp \<and> (0 \<le> err \<or> fout));
          hin = next_handle w;
          hout = (if gin then Suc hin else hin);
          w' = emit (RawOpen inputp outputp name mode #
                    (if gin then [Acquire hin] else []) @
                    (if gout then [Acquire hout] else []))
                 (w\<lparr>next_handle := (if gout then Suc hout else hout)\<rparr>)
      in (err, if gin then Some hin else None, if gout then Some hout else None, w'))"

text \<open>What a handle slot \<open>&ump->rawmidi\<close> holds after the call: the stored handle, if any.\<close>

definition store_handle :: "nat option \<Rightarrow> snd_ump option \<Rightarrow> snd_ump option" where
  "store_handle h x =
     (case h of None \<Rightarrow> x | Some v \<Rightarrow> map_option (\<lambda>u. u\<lparr>rawmidi := Some v\<rparr>) x)"

definition snd_rawmidi_close :: "rawmidi_layer \<Rightarrow> nat option \<Rightarrow> world \<Rightarrow> int \<times> world" where
  "snd_rawmidi_close env h w = (close_res env w h, emit [RawClose h] w)"

definition snd_rawmidi_info ::
  "rawmidi_layer \<Rightarrow> nat option \<Rightarrow> world \<Rightarrow> (int \<times> 32 word) \<times> world" where
  "snd_rawmidi_info env h w =
     (let (err, info_flags) = info_res env w h
      in ((err, info_flags), emit [RawInfo h err info_flags] w))"

definition snd_rawmidi_write ::
  "rawmidi_layer \<Rightarrow> nat option \<Rightarrow> nat \<Rightarrow> nat \<Rightarrow> world \<Rightarrow> int \<times> world" where
  "snd_rawmidi_write env h buffer sz w =
     (write_res env w h buffer sz, emit [RawWrite h buffer sz] w)"

definition snd_rawmidi_read ::
  "rawmidi_layer \<Rightarrow> nat option \<Rightarrow> nat \<Rightarrow> nat \<Rightarrow> world \<Rightarrow> int \<times> world" where
  "snd_rawmidi_read env h buffer sz w =
     (read_res env w h buffer sz, emit [RawRead h buffer sz] w)"

definition snd_rawmidi_tread ::
  "rawmidi_layer \<Rightarrow> nat option \<Rightarrow> nat \<Rightarrow> nat \<Rightarrow> nat \<Rightarrow> world \<Rightarrow> int \<times> world" where
  "snd_rawmidi_tread env h tstamp buffer sz w =
     (tread_res env w h tstamp buffer sz, emit [RawTread h tstamp buffer sz] w)"

subsection \<open>The functions of ump.c\<close>

definition get_rawmidi_flags ::
  "rawmidi_layer \<Rightarrow> snd_ump \<Rightarrow> world \<Rightarrow> int \<times> snd_ump \<times> world" where
  "get_rawmidi_flags env ump w =
     (let ((err, info_flags), w') = snd_rawmidi_info env (rawmidi ump) w
      in if err < 0 then (err, ump, w')
         else if info_flags AND INFO_UMP env = 0 then (- EINVAL, ump, w')
         else (0, ump\<lparr>flags := info_flags\<rparr>, w'))"

text \<open>
  The \<open>error:\<close> label of \<open>snd_ump_open\<close>, for one of the two wrappers: close its
  raw-MIDI handle if it has one, then free the wrapper.
\<close>

definition release :: "rawmidi_layer \<Rightarrow> snd_ump option \<Rightarrow> world \<Rightarrow> world" where
  "release env x w =
     (case x of
        None \<Rightarrow> w
      | Some u \<Rightarrow>
          free_ump u
            (case rawmidi u of
               None \<Rightarrow> w
             | Some h \<Rightarrow> snd (snd_rawmidi_close env (Some h) w)))"

definition error_exit ::
  "rawmidi_layer \<Rightarrow> int \<Rightarrow> snd_ump option \<Rightarrow> snd_ump option \<Rightarrow> world
     \<Rightarrow> int \<times> snd_ump option \<times> snd_ump option \<times> world" where
  "error_exit env err input output w = (err, None, None, release env output (release env input w))"

text \<open>
  \<open>snd_ump_open\<close> is written as the chain of its steps, last step first; each step
  either leaves through the \<open>error:\<close> label or goes on to the next one.

  Last step: read the flags of the input wrapper, then of the output wrapper, and hand
  the wrappers out.
\<close>

definition open_flags ::
  "rawmidi_layer \<Rightarrow> snd_ump option \<Rightarrow> snd_ump option \<Rightarrow> world
     \<Rightarrow> int \<times> snd_ump option \<times> snd_ump option \<times> world" where
  "open_flags env input output w =
     (let (err1, input1, w1) =
            (case input of
               None \<Rightarrow> (0, None, w)
             | Some u \<Rightarrow> (let (e, u', w') = get_rawmidi_flags env u w in (e, Some u', w')))
      in if err1 < 0 then error_exit env err1 input1 output w1
         else
           let (err2, output2, w2) =
                 (case output of
                    None \<Rightarrow> (err1, None, w1)
                  | Some u \<Rightarrow> (let (e, u', w') = get_rawmidi_flags env u w1 in (e, Some u', w')))
           in if err2 < 0 then error_exit env err2 input1 output2 w2
              else (0, input1, output2, w2))"

text \<open>The call of \<open>snd_rawmidi_open\<close> with the addresses of the wrappers' handle fields.\<close>

definition open_raw ::
  "rawmidi_layer \<Rightarrow> snd_ump option \<Rightarrow> snd_ump option \<Rightarrow> string \<Rightarrow> int \<Rightarrow> world
     \<Rightarrow> int \<times> snd_ump option \<times> snd_ump option \<times> world" where
  "open_raw env input output name mode w =
     (let (err, hin, hout, w') =
            snd_rawmidi_open env (input \<noteq> None) (output \<noteq> None) name
              (mode OR OPEN_UMP env) w;
          input' = store_handle hin input;
          output' = store_handle hout output
      in if err < 0 then error_exit env err input' output' w'
         else open_flags env input' output' w')"

text \<open>The allocation of the output wrapper, \<open>if (outputp) { ... }\<close>.\<close>

definition open_output ::
  "rawmidi_layer \<Rightarrow> bool \<Rightarrow> snd_ump option \<Rightarrow> string \<Rightarrow> int \<Rightarrow> world
     \<Rightarrow> int \<times> snd_ump option \<times> snd_ump option \<times> world" where
  "open_output env outputp input name mode w =
     (if outputp
      then (case calloc_ump env w of
              (None, w') \<Rightarrow> error_exit env (- ENOMEM) input None w'
            | (Some u, w') \<Rightarrow> open_raw env input (Some u) name mode w')
      else open_raw env input None name mode w)"

text \<open>
  \<open>snd_ump_open(inputp, outputp, name, mode)\<close>. The two booleans say whether the
  pointers are not \<open>NULL\<close>; the result carries what \<open>*inputp\<close> and \<open>*outputp\<close>
  hold on return (\<open>None\<close> also for a pointer that was not given).
\<close>

definition snd_ump_open ::
  "rawmidi_layer \<Rightarrow> bool \<Rightarrow> bool \<Rightarrow> string \<Rightarrow> int \<Rightarrow> world
     \<Rightarrow> int \<times> snd_ump option \<times> snd_ump option \<times> world" where
  "snd_ump_open env inputp outputp name mode w =
     (if \<not> inputp \<and> \<not> outputp then (- EINVAL, None, None, w)
      else if inputp
      then (case calloc_ump env w of
              (None, w') \<Rightarrow> error_exit env (- ENOMEM) None None w'
            | (Some u, w') \<Rightarrow> open_output env outputp (Some (u\<lparr>is_input := 1\<rparr>)) name mode w')
      else open_output env outputp None name mode w)"

definition snd_ump_close :: "rawmidi_layer \<Rightarrow> snd_ump \<Rightarrow> world \<Rightarrow> int \<times> world" where
  "snd_ump_close env ump w =
     (let (err, w') = snd_rawmidi_close env (rawmidi ump) w
      in (err, free_ump ump w'))"

definition snd_ump_write ::
  "rawmidi_layer \<Rightarrow> snd_ump \<Rightarrow> nat \<Rightarrow> nat \<Rightarrow> world \<Rightarrow> int \<times> world" where
  "snd_ump_write env ump buffer sz w =
     (if is_input ump \<noteq> 0 then (- EINVAL, w)
      else snd_rawmidi_write env (rawmidi ump) buffer sz w)"

definition snd_ump_read ::
  "rawmidi_layer \<Rightarrow> snd_ump \<Rightarrow> nat \<Rightarrow> nat \<Rightarrow> world \<Rightarrow> int \<times> world" where
  "snd_ump_read env ump buffer sz w =
     (if \<not> (is_input ump \<noteq> 0) then (- EINVAL, w)
      else snd_rawmidi_read env (rawmidi ump) buffer sz w)"

definition snd_ump_tread ::
  "rawmidi_layer \<Rightarrow> snd_ump \<Rightarrow> nat \<Rightarrow> nat \<Rightarrow> nat \<Rightarrow> world \<Rightarrow> int \<times> world" where
  "snd_ump_tread env ump tstamp buffer sz w =
     (if \<not> (is_input ump \<noteq> 0) then (- EINVAL, w)
      else snd_rawmidi_tread env (rawmidi ump) tstamp buffer sz w)"

section \<open>The PCM file plugin (pcm_file.c)\<close>

subsection \<open>The world the plugin acts on\<close>

text \<open>
  The slave PCM and the kernel are outside the sources: the spec has the slave as an
  external collaborator that provides the transfer and control primitives. Calls on the
  slave are recorded with the slave handle; what the slave answers comes from an oracle
  that may depend on the whole world. The mirror file is one open file description with
  an offset; every completed \<open>write\<close> is recorded with the descriptor used, where the
  bytes came from and how many were written. Pointers to buffers are numbers.

  A call that does not return normally ends in a fault: a failed \<open>assert\<close>, or the
  division by zero of a remainder by a zero buffer size. The operations of the slave
  carry their arguments (buffer and size, or frames). The bytes of a write come from a
  buffer of the caller, or from the frames \<open>offset .. offset + frames\<close> of channel
  areas.
\<close>

datatype pcm_fault = AssertFail | DivByZero

datatype slave_op =
    SWritei nat nat
  | SWriten nat nat
  | SReadi nat nat
  | SReadn nat nat
  | SMmapForward nat
  | SRewind nat
  | SClose

datatype source = FromBuffer nat | FromAreas nat nat nat

record pcm_world =
  slave_calls :: "(nat \<times> slave_op) list"
  file_pos :: int
  seekable :: bool
  writes :: "(int \<times> source \<times> nat) list"
  closed_fds :: "int list"

text \<open>\<open>snd_pcm_file_t\<close>; \<open>fname\<close> is \<open>NULL\<close> when the caller supplied the descriptor.\<close>

record snd_pcm_file =
  slave :: nat
  close_slave :: int
  fname :: "string option"
  fd :: int

text \<open>
  The fields of \<open>snd_pcm_t\<close> that the plugin reads: its private data, the size of a
  frame in bytes, \<open>setup.buffer_size\<close>, \<open>mmap_control->appl_ptr\<close> and the pointer
  \<open>mmap_areas\<close>.
\<close>

record snd_pcm =
  private_data :: snd_pcm_file
  frame_bytes :: nat
  buffer_size :: nat
  appl_ptr :: nat
  mmap_areas :: nat

record pcm_layer =
  slave_res :: "pcm_world \<Rightarrow> nat \<Rightarrow> slave_op \<Rightarrow> int"
  sys_write_res :: "pcm_world \<Rightarrow> int \<Rightarrow> nat \<Rightarrow> int"
  sys_open_res :: "pcm_world \<Rightarrow> string \<Rightarrow> int"
  sys_errno :: "pcm_world \<Rightarrow> int"
  pcm_calloc_ok :: "pcm_world \<Rightarrow> nat \<Rightarrow> bool"
  pcm_init_res :: "pcm_world \<Rightarrow> int"

definition slave_call :: "pcm_layer \<Rightarrow> nat \<Rightarrow> slave_op \<Rightarrow> pcm_world \<Rightarrow> int \<times> pcm_world" where
  "slave_call env s op w = (slave_res env w s op, w\<lparr>slave_calls := slave_calls w @ [(s, op)]\<rparr>)"

text \<open>
  \<open>write(fd, buf, count)\<close>: the oracle gives the return value; a value that is not
  negative is the number of bytes written, and the offset moves by it.
\<close>

definition sys_write ::
  "pcm_layer \<Rightarrow> int \<Rightarrow> source \<Rightarrow> nat \<Rightarrow> pcm_world \<Rightarrow> int \<times> pcm_world" where
  "sys_write env d src count w =
     (let r = sys_write_res env w d count
      in (r, if 0 \<le> r
             then w\<lparr>file_pos := file_pos w + r, writes := writes w @ [(d, src, nat r)]\<rparr>
             else w))"

text \<open>
  \<open>lseek(fd, offset, SEEK_CUR)\<close> as POSIX has it: \<open>-1\<close> on a descriptor that cannot
  seek (a pipe, a socket) and when the new offset would be negative; otherwise the new
  offset, which is also returned.
\<close>

definition sys_lseek_cur :: "int \<Rightarrow> int \<Rightarrow> pcm_world \<Rightarrow> int \<times> pcm_world" where
  "sys_lseek_cur d offset w =
     (if \<not> seekable w \<or> file_pos w + offset < 0 then (- 1, w)
      else (file_pos w + offset, w\<lparr>file_pos := file_pos w + offset\<rparr>))"

definition sys_close :: "int \<Rightarrow> pcm_world \<Rightarrow> pcm_world" where
  "sys_close d w = w\<lparr>closed_fds := closed_fds w @ [d]\<rparr>"

text \<open>
  Modelled from the spec: \<open>snd_pcm_frames_to_bytes\<close> is defined outside the sources;
  the spec gives the byte count of frames as frames times bytes per frame. Counts are
  not bounded here: a byte count that does not fit \<open>size_t\<close> is outside the model.
\<close>

definition snd_pcm_frames_to_bytes :: "snd_pcm \<Rightarrow> int \<Rightarrow> int" where
  "snd_pcm_frames_to_bytes pcm frames = frames * int (frame_bytes pcm)"

subsection \<open>The functions of pcm_file.c\<close>

text \<open>
  \<open>snd_pcm_file_close\<close>. The result of closing the slave is assigned to \<open>err\<close> and not
  used again. The two calls of \<open>free\<close> have no effect on this world.
\<close>

definition snd_pcm_file_close :: "pcm_layer \<Rightarrow> snd_pcm \<Rightarrow> pcm_world \<Rightarrow> int \<times> pcm_world" where
  "snd_pcm_file_close env pcm w =
     (let file = private_data pcm;
          (err, w1) = (if close_slave file \<noteq> 0 then slave_call env (slave file) SClose w
                       else (0, w));
          w2 = (if fname file \<noteq> None then sys_close (fd file) w1 else w1)
      in (0, w2))"

definition snd_pcm_file_rewind ::
  "pcm_layer \<Rightarrow> snd_pcm \<Rightarrow> nat \<Rightarrow> pcm_world \<Rightarrow> int \<times> pcm_world" where
  "snd_pcm_file_rewind env pcm frames w =
     (let file = private_data pcm;
          (f, w1) = slave_call env (slave file) (SRewind frames) w
      in if 0 < f
         then (let (err, w2) = sys_lseek_cur (fd file) (- snd_pcm_frames_to_bytes pcm f) w1
               in if err < 0 then (err, w2) else (f, w2))
         else (f, w1))"

text \<open>
  \<open>snd_pcm_file_write_areas\<close>: the frames \<open>offset .. offset + frames\<close> of the areas
  are copied to a local buffer, which is written in one \<open>write\<close>; \<open>assert\<close> aborts
  unless the write was complete.
\<close>

definition snd_pcm_file_write_areas ::
  "pcm_layer \<Rightarrow> snd_pcm \<Rightarrow> nat \<Rightarrow> nat \<Rightarrow> nat \<Rightarrow> pcm_world \<Rightarrow> pcm_fault + pcm_world" where
  "snd_pcm_file_write_areas env pcm areas offset frames w =
     (let file = private_data pcm;
          bytes = snd_pcm_frames_to_bytes pcm (int frames);
          (r, w1) = sys_write env (fd file) (FromAreas areas offset frames) (nat bytes) w
      in if r = bytes then Inr w1 else Inl AssertFail)"

definition snd_pcm_file_writei ::
  "pcm_layer \<Rightarrow> snd_pcm \<Rightarrow> nat \<Rightarrow> nat \<Rightarrow> pcm_world \<Rightarrow> pcm_fault + int \<times> pcm_world" where
  "snd_pcm_file_writei env pcm buffer sz w =
     (let file = private_data pcm;
          (n, w1) = slave_call env (slave file) (SWritei buffer sz) w
      in if 0 < n
         then (let bytes = snd_pcm_frames_to_bytes pcm n;
                   (r, w2) = sys_write env (fd file) (FromBuffer buffer) (nat bytes) w1
               in if r = bytes then Inr (n, w2) else Inl AssertFail)
         else Inr (n, w1))"

definition snd_pcm_file_writen ::
  "pcm_layer \<Rightarrow> snd_pcm \<Rightarrow> nat \<Rightarrow> nat \<Rightarrow> pcm_world \<Rightarrow> pcm_fault + int \<times> pcm_world" where
  "snd_pcm_file_writen env pcm bufs sz w =
     (let file = private_data pcm;
          (n, w1) = slave_call env (slave file) (SWriten bufs sz) w
      in if 0 < n
         then (case snd_pcm_file_write_areas env pcm bufs 0 (nat n) w1 of
                 Inl e \<Rightarrow> Inl e
               | Inr w2 \<Rightarrow> Inr (n, w2))
         else Inr (n, w1))"

definition snd_pcm_file_readi ::
  "pcm_layer \<Rightarrow> snd_pcm \<Rightarrow> nat \<Rightarrow> nat \<Rightarrow> pcm_world \<Rightarrow> pcm_fault + int \<times> pcm_world" where
  "snd_pcm_file_readi env pcm buffer sz w =
     (let file = private_data pcm;
          (n, w1) = slave_call env (slave file) (SReadi buffer sz) w
      in if 0 < n
         then (let bytes = snd_pcm_frames_to_bytes pcm n;
                   (r, w2) = sys_write env (fd file) (FromBuffer buffer) (nat bytes) w1
               in if r = bytes then Inr (n, w2) else Inl AssertFail)
         else Inr (n, w1))"

definition snd_pcm_file_readn ::
  "pcm_layer \<Rightarrow> snd_pcm \<Rightarrow> nat \<Rightarrow> nat \<Rightarrow> pcm_world \<Rightarrow> pcm_fault + int \<times> pcm_world" where
  "snd_pcm_file_readn env pcm bufs sz w =
     (let file = private_data pcm;
          (n, w1) = slave_call env (slave file) (SWriten bufs sz) w
      in if 0 < n
         then (case snd_pcm_file_write_areas env pcm bufs 0 (nat n) w1 of
                 Inl e \<Rightarrow> Inl e
               | Inr w2 \<Rightarrow> Inr (n, w2))
         else Inr (n, w1))"

text \<open>
  One pass through the body of the \<open>while\<close> loop of \<open>snd_pcm_file_mmap_forward\<close>,
  without the write: the number of frames to copy, the next offset and the next count.
  The sizes are \<open>size_t\<close>; lemma \<open>mmap_step_bounds\<close> shows that neither subtraction
  goes below zero on the values the loop reaches.
\<close>

definition mmap_step :: "snd_pcm \<Rightarrow> nat \<Rightarrow> nat \<Rightarrow> nat \<Rightarrow> nat \<times> nat \<times> nat" where
  "mmap_step pcm sz ofs xfer =
     (let frames = sz - xfer;
          cont = buffer_size pcm - ofs;
          frames = (if cont < frames then cont else frames);
          ofs' = ofs + frames;
          ofs' = (if ofs' = buffer_size pcm then 0 else ofs')
      in (frames, ofs', xfer + frames))"

text \<open>The loop itself; \<open>None\<close> is a loop that never ends.\<close>

partial_function (option) mmap_loop ::
  "pcm_layer \<Rightarrow> snd_pcm \<Rightarrow> nat \<Rightarrow> nat \<Rightarrow> nat \<Rightarrow> nat \<Rightarrow> pcm_world
     \<Rightarrow> (pcm_fault + pcm_world) option" where
  "mmap_loop env pcm sz n ofs xfer w =
     (if xfer < n
      then (case mmap_step pcm sz ofs xfer of
              (frames, ofs', xfer') \<Rightarrow>
                (case snd_pcm_file_write_areas env pcm (mmap_areas pcm) ofs frames w of
                   Inl e \<Rightarrow> Some (Inl e)
                 | Inr w' \<Rightarrow> mmap_loop env pcm sz n ofs' xfer' w'))
      else Some (Inr w))"

text \<open>
  \<open>snd_pcm_file_mmap_forward\<close>. The offset is computed before the slave is called; a
  buffer size of zero makes the remainder a division by zero.
\<close>

definition snd_pcm_file_mmap_forward ::
  "pcm_layer \<Rightarrow> snd_pcm \<Rightarrow> nat \<Rightarrow> pcm_world \<Rightarrow> (pcm_fault + int \<times> pcm_world) option" where
  "snd_pcm_file_mmap_forward env pcm sz w =
     (if buffer_size pcm = 0 then Some (Inl DivByZero)
      else
        let file = private_data pcm;
            ofs = appl_ptr pcm mod buffer_size pcm;
            (n, w1) = slave_call env (slave file) (SMmapForward sz) w
        in if n \<le> 0 then Some (Inr (n, w1))
           else (case mmap_loop env pcm sz (nat n) ofs 0 w1 of
                   None \<Rightarrow> None
                 | Some (Inl e) \<Rightarrow> Some (Inl e)
                 | Some (Inr w2) \<Rightarrow> Some (Inr (n, w2))))"

text \<open>
  \<open>snd_pcm_file_open\<close>. With a file name the descriptor comes from \<open>open\<close>, which
  starts at offset zero. When \<open>snd_pcm_init\<close> fails the new handle is closed with
  \<open>snd_pcm_close\<close>, which reaches the \<open>close\<close> entry of \<open>snd_pcm_file_ops\<close>, that
  is \<open>snd_pcm_file_close\<close>.
\<close>

definition snd_pcm_file_open ::
  "pcm_layer \<Rightarrow> string option \<Rightarrow> int \<Rightarrow> nat \<Rightarrow> int \<Rightarrow> pcm_world
     \<Rightarrow> int \<times> snd_pcm option \<times> pcm_world" where
  "snd_pcm_file_open env name d slv cs w =
     (let (d1, w1) =
            (case name of
               None \<Rightarrow> (d, w)
             | Some path \<Rightarrow>
                 (let r = sys_open_res env w path
                  in (r, if r < 0 then w else w\<lparr>file_pos := 0\<rparr>)))
      in if name \<noteq> None \<and> d1 < 0 then (- sys_errno env w, None, w1)
         else if \<not> pcm_calloc_ok env w1 0 then (- ENOMEM, None, w1)
         else
           let file = \<lparr>slave = slv, close_slave = cs, fname = name, fd = d1\<rparr>
           in if \<not> pcm_calloc_ok env w1 1 then (- ENOMEM, None, w1)
              else
                let handle = \<lparr>private_data = file, frame_bytes = 0, buffer_size = 0,
                              appl_ptr = 0, mmap_areas = 0\<rparr>;
                    err = pcm_init_res env w1
                in if err < 0 then (err, None, snd (snd_pcm_file_close env handle w1))
                   else (0, Some handle, w1))"

subsection \<open>Reading the trace\<close>

text \<open>The events a call added: the trace after it without the trace before it.\<close>

definition new_events :: "world \<Rightarrow> world \<Rightarrow> event list" where
  "new_events w w' = drop (length (trace w)) (trace w')"

text \<open>
  The four resource ledgers of a trace, each in the order of the events: raw-MIDI handles
  handed out, arguments of \<open>snd_rawmidi_close\<close>, addresses allocated, addresses freed.
\<close>

definition acquired :: "event list \<Rightarrow> nat list" where
  "acquired evs = concat (map (\<lambda>e. case e of Acquire h \<Rightarrow> [h] | _ \<Rightarrow> []) evs)"

definition closed :: "event list \<Rightarrow> nat option list" where
  "closed evs = concat (map (\<lambda>e. case e of RawClose h \<Rightarrow> [h] | _ \<Rightarrow> []) evs)"

definition allocated :: "event list \<Rightarrow> nat list" where
  "allocated evs = concat (map (\<lambda>e. case e of Alloc a \<Rightarrow> [a] | _ \<Rightarrow> []) evs)"

definition freed :: "event list \<Rightarrow> nat list" where
  "freed evs = concat (map (\<lambda>e. case e of Free a \<Rightarrow> [a] | _ \<Rightarrow> []) evs)"

text \<open>The handle a wrapper pointer holds, and its address, as lists of at most one element.\<close>

definition handle_of :: "snd_ump option \<Rightarrow> nat list" where
  "handle_of x = (case x of None \<Rightarrow> [] | Some u \<Rightarrow> (case rawmidi u of None \<Rightarrow> [] | Some h \<Rightarrow> [h]))"

definition addr_of :: "snd_ump option \<Rightarrow> nat list" where
  "addr_of x = (case x of None \<Rightarrow> [] | Some u \<Rightarrow> [self u])"

text \<open>
  The flags of a wrapper are cached from the driver: some successful info query on the
  wrapper's handle, among the given events, answered exactly these flags.
\<close>

definition cached :: "event list \<Rightarrow> snd_ump \<Rightarrow> bool" where
  "cached evs u =
     list_ex (\<lambda>e. case e of RawInfo h err fl \<Rightarrow> h = rawmidi u \<and> 0 \<le> err \<and> fl = flags u
                   | _ \<Rightarrow> False) evs"

text \<open>
  Some info query among the given events succeeded and answered flags that lack the UMP
  bit.
\<close>

definition saw_no_ump :: "rawmidi_layer \<Rightarrow> event list \<Rightarrow> bool" where
  "saw_no_ump env evs =
     list_ex (\<lambda>e. case e of RawInfo h err fl \<Rightarrow> 0 \<le> err \<and> fl AND INFO_UMP env = 0
                   | _ \<Rightarrow> False) evs"

text \<open>The writes a call added to the mirror file.\<close>

definition new_writes :: "pcm_world \<Rightarrow> pcm_world \<Rightarrow> (int \<times> source \<times> nat) list" where
  "new_writes w w' = drop (length (writes w)) (writes w')"

section \<open>Concrete instances\<close>

text \<open>
  An empty world, a raw-MIDI layer for a device without the UMP bit and one for a UMP
  device (the bit is 8), and for the plugin an empty world, a layer whose slave answers
  every call with the same number and whose writes are complete, and a wrapper on
  descriptor 5 with frames of 4 bytes and a buffer of 8 frames.
\<close>

definition world0 :: world where
  "world0 = \<lparr>next_addr = 0, next_handle = 0, trace = []\<rparr>"

definition plain_device :: rawmidi_layer where
  "plain_device =
     \<lparr>calloc_ok = (\<lambda>_. True), open_res = (\<lambda>_ _ _ _ _. (0, False, False)),
      info_res = (\<lambda>_ _. (0, 0)), close_res = (\<lambda>_ _. 0),
      write_res = (\<lambda>_ _ _ n. int n), read_res = (\<lambda>_ _ _ n. int n),
      tread_res = (\<lambda>_ _ _ _ n. int n), INFO_UMP = 8, OPEN_UMP = 1073741824\<rparr>"

definition ump_device :: rawmidi_layer where
  "ump_device = plain_device\<lparr>info_res := (\<lambda>_ _. (0, 8))\<rparr>"

definition pcm_world0 :: pcm_world where
  "pcm_world0 = \<lparr>slave_calls = [], file_pos = 0, seekable = True, writes = [], closed_fds = []\<rparr>"

definition slave_returns :: "int \<Rightarrow> pcm_layer" where
  "slave_returns n =
     \<lparr>slave_res = (\<lambda>_ _ _. n), sys_write_res = (\<lambda>_ _ k. int k), sys_open_res = (\<lambda>_ _. 3),
      sys_errno = (\<lambda>_. 2), pcm_calloc_ok = (\<lambda>_ _. True), pcm_init_res = (\<lambda>_. 0)\<rparr>"

definition file0 :: snd_pcm_file where
  "file0 = \<lparr>slave = 1, close_slave = 0, fname = None, fd = 5\<rparr>"

definition pcm0 :: snd_pcm where
  "pcm0 = \<lparr>private_data = file0, frame_bytes = 4, buffer_size = 8, appl_ptr = 6, mmap_areas = 2\<rparr>"

section \<open>Properties of the UMP functions\<close>

subsection \<open>Reading the ledgers\<close>

lemmas ump_eval = snd_ump_open_def open_output_def open_raw_def open_flags_def error_exit_def
  release_def get_rawmidi_flags_def snd_rawmidi_info_def snd_rawmidi_close_def
  snd_rawmidi_open_def store_handle_def calloc_ump_def free_ump_def emit_def new_events_def
  snd_ump_close_def world0_def plain_device_def ump_device_def EINVAL_def ENOMEM_def Let_def

lemma error_exit_sel [simp]:
  "fst (error_exit env err i ou w) = err"
  "fst (snd (error_exit env err i ou w)) = None"
  "fst (snd (snd (error_exit env err i ou w))) = None"
  by (simp_all add: error_exit_def)

lemma ledger_simps [simp]:
  "acquired [] = []" "acquired (e # es) = (case e of Acquire h \<Rightarrow> [h] | _ \<Rightarrow> []) @ acquired es"
  "acquired (xs @ ys) = acquired xs @ acquired ys"
  "closed [] = []" "closed (e # es) = (case e of RawClose h \<Rightarrow> [h] | _ \<Rightarrow> []) @ closed es"
  "closed (xs @ ys) = closed xs @ closed ys"
  "allocated [] = []" "allocated (e # es) = (case e of Alloc h \<Rightarrow> [h] | _ \<Rightarrow> []) @ allocated es"
  "allocated (xs @ ys) = allocated xs @ allocated ys"
  "freed [] = []" "freed (e # es) = (case e of Free h \<Rightarrow> [h] | _ \<Rightarrow> []) @ freed es"
  "freed (xs @ ys) = freed xs @ freed ys"
  by (simp_all add: acquired_def closed_def allocated_def freed_def)

lemma cached_append [simp]: "cached (xs @ ys) u = (cached xs u \<or> cached ys u)"
  by (simp add: cached_def list_ex_iff) blast

lemma cached_Alloc [simp]: "cached (Alloc a # evs) u = cached evs u"
  by (simp add: cached_def)

lemma addr_of_simps [simp]: "addr_of None = []" "addr_of (Some u) = [self u]"
  by (simp_all add: addr_of_def)

lemma handle_of_None [simp]: "handle_of None = []"
  by (simp add: handle_of_def)

lemma new_events_append: "trace w' = trace w @ evs \<Longrightarrow> new_events w w' = evs"
  by (simp add: new_events_def)

subsection \<open>Direction checks\<close>

text \<open>
  Claim C7. A call of \<open>snd_ump_open\<close> with both handle pointers \<open>NULL\<close> returns
  \<open>-EINVAL\<close>, hands out no handle and leaves the world as it was: nothing is
  allocated and the raw-MIDI layer is not called.
\<close>

theorem ump_open_no_direction: "snd_ump_open env False False name mode w = (- EINVAL, None, None, w)"
  by (simp add: snd_ump_open_def)

text \<open>
  Claim C2. On a handle whose \<open>is_input\<close> is set, \<open>snd_ump_write\<close> returns
  \<open>-EINVAL\<close> and the world is unchanged, so the raw-MIDI write is not called. On a
  handle whose \<open>is_input\<close> is not set, \<open>snd_ump_read\<close> and \<open>snd_ump_tread\<close> return
  \<open>-EINVAL\<close> and the world is unchanged. In the other cases each of the three is the
  call of the raw-MIDI operation on the wrapped handle, result and effect.
\<close>

theorem ump_direction_guard:
  "(is_input ump \<noteq> 0 \<longrightarrow> snd_ump_write env ump buffer sz w = (- EINVAL, w)) \<and>
   (is_input ump = 0 \<longrightarrow>
      snd_ump_write env ump buffer sz w = snd_rawmidi_write env (rawmidi ump) buffer sz w) \<and>
   (is_input ump = 0 \<longrightarrow>
      snd_ump_read env ump buffer sz w = (- EINVAL, w) \<and>
      snd_ump_tread env ump tstamp buffer sz w = (- EINVAL, w)) \<and>
   (is_input ump \<noteq> 0 \<longrightarrow>
      snd_ump_read env ump buffer sz w = snd_rawmidi_read env (rawmidi ump) buffer sz w \<and>
      snd_ump_tread env ump tstamp buffer sz w =
        snd_rawmidi_tread env (rawmidi ump) tstamp buffer sz w)"
  by (simp add: snd_ump_write_def snd_ump_read_def snd_ump_tread_def)

text \<open>Claim C2 at an input handle and at an output handle.\<close>

theorem ump_direction_guard_witness:
  "snd_ump_write ump_device \<lparr>self = 0, rawmidi = Some 0, is_input = 1, flags = 8\<rparr> 7 4 world0
     = (- 22, world0) \<and>
   snd_ump_read ump_device \<lparr>self = 0, rawmidi = Some 0, is_input = 1, flags = 8\<rparr> 7 4 world0
     = (4, world0\<lparr>trace := [RawRead (Some 0) 7 4]\<rparr>) \<and>
   snd_ump_tread ump_device \<lparr>self = 0, rawmidi = Some 0, is_input = 1, flags = 8\<rparr> 9 7 4 world0
     = (4, world0\<lparr>trace := [RawTread (Some 0) 9 7 4]\<rparr>) \<and>
   snd_ump_write ump_device \<lparr>self = 1, rawmidi = Some 1, is_input = 0, flags = 8\<rparr> 7 4 world0
     = (4, world0\<lparr>trace := [RawWrite (Some 1) 7 4]\<rparr>) \<and>
   snd_ump_read ump_device \<lparr>self = 1, rawmidi = Some 1, is_input = 0, flags = 8\<rparr> 7 4 world0
     = (- 22, world0) \<and>
   snd_ump_tread ump_device \<lparr>self = 1, rawmidi = Some 1, is_input = 0, flags = 8\<rparr> 9 7 4 world0
     = (- 22, world0)"
  using ump_direction_guard [of "\<lparr>self = 0, rawmidi = Some 0, is_input = 1, flags = 8\<rparr>" ump_device 7 4 world0 9]
    ump_direction_guard [of "\<lparr>self = 1, rawmidi = Some 1, is_input = 0, flags = 8\<rparr>" ump_device 7 4 world0 9]
  by (simp add: snd_rawmidi_write_def snd_rawmidi_read_def snd_rawmidi_tread_def emit_def
        ump_device_def plain_device_def world0_def EINVAL_def)

subsection \<open>A device without UMP is rejected\<close>

lemma get_flags_no_ump:
  assumes "0 \<le> fst (info_res env w (rawmidi u))"
    and "snd (info_res env w (rawmidi u)) AND INFO_UMP env = 0"
  shows "\<exists>u' w'. get_rawmidi_flags env u w = (- EINVAL, u', w')"
  using assms
  by (cases "info_res env w (rawmidi u)")
     (simp add: get_rawmidi_flags_def snd_rawmidi_info_def)

lemma open_flags_no_ump:
  assumes "\<forall>w' h. 0 \<le> fst (info_res env w' h) \<and> snd (info_res env w' h) AND INFO_UMP env = 0"
    and "i \<noteq> None \<or> ou \<noteq> None"
  shows "\<exists>i' ou' w'. open_flags env i ou w = error_exit env (- EINVAL) i' ou' w'"
proof (cases i)
  case (Some u)
  from assms(1) obtain u' w' where "get_rawmidi_flags env u w = (- EINVAL, u', w')"
    using get_flags_no_ump by blast
  with Some show ?thesis by (auto simp add: open_flags_def EINVAL_def)
next
  case None
  with assms(2) obtain v where out: "ou = Some v" by auto
  from assms(1) obtain v' w' where "get_rawmidi_flags env v w = (- EINVAL, v', w')"
    using get_flags_no_ump by blast
  with None out show ?thesis by (auto simp add: open_flags_def EINVAL_def)
qed

lemma open_raw_no_ump:
  assumes opn: "\<forall>w' a b nm m. 0 \<le> fst (open_res env w' a b nm m)"
    and inf: "\<forall>w' h. 0 \<le> fst (info_res env w' h) \<and> snd (info_res env w' h) AND INFO_UMP env = 0"
    and "i \<noteq> None \<or> ou \<noteq> None"
  shows "\<exists>i' ou' w'. open_raw env i ou name mode w = error_exit env (- EINVAL) i' ou' w'"
proof -
  obtain err hin hout w3 where a3:
    "snd_rawmidi_open env (i \<noteq> None) (ou \<noteq> None) name (mode OR OPEN_UMP env) w
       = (err, hin, hout, w3)"
    by (metis prod_cases4)
  have e: "\<not> err < 0"
    using a3 opn [rule_format, of w "i \<noteq> None" "ou \<noteq> None" name "mode OR OPEN_UMP env"]
    by (auto simp: snd_rawmidi_open_def Let_def split: prod.splits)
  have "open_raw env i ou name mode w =
          open_flags env (store_handle hin i)
            (store_handle hout ou) w3"
    unfolding open_raw_def a3 using e by simp
  moreover have "store_handle hin i \<noteq> None \<or> store_handle hout ou \<noteq> None"
    using assms(3) by (auto simp: store_handle_def split: option.splits)
  ultimately show ?thesis
    using open_flags_no_ump [OF inf] by metis
qed

lemma open_output_no_ump:
  assumes mem: "\<forall>w'. calloc_ok env w'"
    and opn: "\<forall>w' a b nm m. 0 \<le> fst (open_res env w' a b nm m)"
    and inf: "\<forall>w' h. 0 \<le> fst (info_res env w' h) \<and> snd (info_res env w' h) AND INFO_UMP env = 0"
    and "i \<noteq> None \<or> outputp"
  shows "\<exists>i' ou' w'. open_output env outputp i name mode w = error_exit env (- EINVAL) i' ou' w'"
proof (cases outputp)
  case True
  with mem show ?thesis
    using open_raw_no_ump [OF opn inf, of i "Some _"]
    by (simp add: open_output_def calloc_ump_def)
next
  case False
  with assms(4) show ?thesis
    using open_raw_no_ump [OF opn inf, of i None]
    by (simp add: open_output_def)
qed

lemma open_no_ump_rejected:
  assumes dir: "inputp \<or> outputp"
    and mem: "\<forall>w'. calloc_ok env w'"
    and opn: "\<forall>w' a b nm m. 0 \<le> fst (open_res env w' a b nm m)"
    and inf: "\<forall>w' h. 0 \<le> fst (info_res env w' h) \<and> snd (info_res env w' h) AND INFO_UMP env = 0"
  shows "\<exists>i ou w'. snd_ump_open env inputp outputp name mode w = error_exit env (- EINVAL) i ou w'"
proof (cases inputp)
  case True
  with mem show ?thesis
    using open_output_no_ump [OF mem opn inf, of "Some _" outputp]
    by (simp add: snd_ump_open_def calloc_ump_def)
next
  case False
  with dir show ?thesis
    using open_output_no_ump [OF mem opn inf, of None outputp]
    by (simp add: snd_ump_open_def)
qed

subsection \<open>What each step of the open adds to the trace\<close>

lemma get_flags_spec:
  assumes "get_rawmidi_flags env u w = (e, u', w')"
  shows "\<exists>ev. trace w' = trace w @ [ev] \<and> acquired [ev] = [] \<and> closed [ev] = [] \<and>
           allocated [ev] = [] \<and> freed [ev] = [] \<and> self u' = self u \<and> rawmidi u' = rawmidi u \<and>
           (\<not> e < 0 \<longrightarrow> e = 0 \<and> cached [ev] u' \<and> flags u' AND INFO_UMP env \<noteq> 0)"
  using assms
  by (cases "info_res env w (rawmidi u)")
     (auto simp: get_rawmidi_flags_def snd_rawmidi_info_def emit_def cached_def EINVAL_def
           split: if_splits)

lemma error_exit_spec:
  assumes "error_exit env err i ou w = (r, i', ou', w')"
  shows "r = err \<and> i' = None \<and> ou' = None \<and>
         (\<exists>evs. trace w' = trace w @ evs \<and> acquired evs = [] \<and> allocated evs = [] \<and>
                closed evs = map Some (handle_of i @ handle_of ou) \<and>
                freed evs = addr_of i @ addr_of ou)"
  using assms
  by (auto simp: error_exit_def release_def free_ump_def snd_rawmidi_close_def emit_def
                 handle_of_def addr_of_def split: option.splits)

lemma open_flags_spec:
  assumes "open_flags env i ou w = (r, i', ou', w')"
  shows "\<exists>evs. trace w' = trace w @ evs \<and> acquired evs = [] \<and> allocated evs = [] \<and>
           (if r < 0
            then i' = None \<and> ou' = None \<and>
                 closed evs = map Some (handle_of i @ handle_of ou) \<and>
                 freed evs = addr_of i @ addr_of ou
            else r = 0 \<and> closed evs = [] \<and> freed evs = [] \<and>
                 handle_of i' = handle_of i \<and> handle_of ou' = handle_of ou \<and>
                 addr_of i' = addr_of i \<and> addr_of ou' = addr_of ou \<and>
                 (\<forall>u. i' = Some u \<or> ou' = Some u \<longrightarrow>
                        cached evs u \<and> flags u AND INFO_UMP env \<noteq> 0))"
proof -
  obtain e1 i1 w1 where s1:
    "(case i of None \<Rightarrow> (0, None, w)
      | Some u \<Rightarrow> (let (e, u', w') = get_rawmidi_flags env u w in (e, Some u', w'))) = (e1, i1, w1)"
    by (metis prod_cases3)
  have p1: "\<exists>evs. trace w1 = trace w @ evs \<and> acquired evs = [] \<and> allocated evs = [] \<and>
              closed evs = [] \<and> freed evs = [] \<and> handle_of i1 = handle_of i \<and>
              addr_of i1 = addr_of i \<and>
              (\<not> e1 < 0 \<longrightarrow> e1 = 0 \<and> (\<forall>u. i1 = Some u \<longrightarrow> cached evs u \<and> flags u AND INFO_UMP env \<noteq> 0))"
  proof (cases i)
    case None
    with s1 show ?thesis by auto
  next
    case (Some u)
    obtain e u' wa where g: "get_rawmidi_flags env u w = (e, u', wa)" by (metis prod_cases3)
    from get_flags_spec [OF g] Some s1 g show ?thesis
      by (auto simp: handle_of_def addr_of_def)
  qed
  then obtain evs1 where t1: "trace w1 = trace w @ evs1" and q1: "acquired evs1 = []"
    "allocated evs1 = []" "closed evs1 = []" "freed evs1 = []" "handle_of i1 = handle_of i"
    "addr_of i1 = addr_of i"
    and c1: "\<not> e1 < 0 \<longrightarrow> e1 = 0 \<and> (\<forall>u. i1 = Some u \<longrightarrow> cached evs1 u \<and> flags u AND INFO_UMP env \<noteq> 0)"
    by blast
  show ?thesis
  proof (cases "e1 < 0")
    case True
    with assms s1 have "error_exit env e1 i1 ou w1 = (r, i', ou', w')"
      by (simp add: open_flags_def)
    from error_exit_spec [OF this] True t1 q1 show ?thesis
      by auto
  next
    case False
    with c1 have e10: "e1 = 0" and ci: "\<forall>u. i1 = Some u \<longrightarrow> cached evs1 u \<and> flags u AND INFO_UMP env \<noteq> 0"
      by auto
    obtain e2 o2 w2 where s2:
      "(case ou of None \<Rightarrow> (e1, None, w1)
        | Some u \<Rightarrow> (let (e, u', w') = get_rawmidi_flags env u w1 in (e, Some u', w'))) = (e2, o2, w2)"
      by (metis prod_cases3)
    have p2: "\<exists>evs. trace w2 = trace w1 @ evs \<and> acquired evs = [] \<and> allocated evs = [] \<and>
              closed evs = [] \<and> freed evs = [] \<and> handle_of o2 = handle_of ou \<and>
              addr_of o2 = addr_of ou \<and>
              (\<not> e2 < 0 \<longrightarrow> e2 = 0 \<and> (\<forall>u. o2 = Some u \<longrightarrow> cached evs u \<and> flags u AND INFO_UMP env \<noteq> 0))"
    proof (cases ou)
      case None
      with s2 e10 show ?thesis by auto
    next
      case (Some u)
      obtain e u' wa where g: "get_rawmidi_flags env u w1 = (e, u', wa)" by (metis prod_cases3)
      from get_flags_spec [OF g] Some s2 g show ?thesis
        by (auto simp: handle_of_def addr_of_def)
    qed
    then obtain evs2 where t2: "trace w2 = trace w1 @ evs2" and q2: "acquired evs2 = []"
      "allocated evs2 = []" "closed evs2 = []" "freed evs2 = []" "handle_of o2 = handle_of ou"
      "addr_of o2 = addr_of ou"
      and co: "\<not> e2 < 0 \<longrightarrow> e2 = 0 \<and> (\<forall>u. o2 = Some u \<longrightarrow> cached evs2 u \<and> flags u AND INFO_UMP env \<noteq> 0)"
      by blast
    show ?thesis
    proof (cases "e2 < 0")
      case True
      with assms s1 s2 False have "error_exit env e2 i1 o2 w2 = (r, i', ou', w')"
        by (simp add: open_flags_def)
      from error_exit_spec [OF this] True t1 t2 q1 q2 show ?thesis
        by auto
    next
      case e2: False
      with assms s1 s2 False have "(r, i', ou', w') = (0, i1, o2, w2)"
        by (simp add: open_flags_def)
      with t1 t2 q1 q2 ci co e2 show ?thesis
        by auto
    qed
  qed
qed

lemma raw_open_spec:
  assumes "snd_rawmidi_open env a b name mode w = (err, hin, hout, w')"
  shows "\<exists>evs. trace w' = trace w @ evs \<and> allocated evs = [] \<and> closed evs = [] \<and> freed evs = [] \<and>
           acquired evs = (case hin of None \<Rightarrow> [] | Some h \<Rightarrow> [h]) @
                          (case hout of None \<Rightarrow> [] | Some h \<Rightarrow> [h]) \<and>
           distinct (acquired evs) \<and> (hin \<noteq> None \<longrightarrow> a) \<and> (hout \<noteq> None \<longrightarrow> b) \<and>
           (\<not> err < 0 \<longrightarrow> (a \<longrightarrow> hin \<noteq> None) \<and> (b \<longrightarrow> hout \<noteq> None))"
  using assms
  by (cases "open_res env w a b name mode")
     (auto simp: snd_rawmidi_open_def emit_def Let_def split: if_splits)

lemma handle_of_store:
  "handle_of x = [] \<Longrightarrow> (h \<noteq> None \<longrightarrow> x \<noteq> None) \<Longrightarrow>
   handle_of (store_handle h x) = (case h of None \<Rightarrow> [] | Some v \<Rightarrow> [v])"
  by (auto simp: handle_of_def store_handle_def split: option.splits)

lemma addr_of_store [simp]: "addr_of (store_handle h x) = addr_of x"
  by (auto simp: addr_of_def store_handle_def split: option.splits)

lemma store_handle_None [simp]: "store_handle h x = None \<longleftrightarrow> x = None"
  by (auto simp: store_handle_def split: option.splits)

lemma handle_of_Some_nonempty:
  "handle_of (Some u) \<noteq> [] \<Longrightarrow> rawmidi u \<noteq> None"
  by (auto simp: handle_of_def split: option.splits)

lemma open_raw_spec:
  assumes res: "open_raw env i ou name mode w = (r, i', ou', w')"
    and fresh: "handle_of i = []" "handle_of ou = []"
  shows "\<exists>evs. trace w' = trace w @ evs \<and> allocated evs = [] \<and> distinct (acquired evs) \<and>
           (if r < 0
            then i' = None \<and> ou' = None \<and> closed evs = map Some (acquired evs) \<and>
                 freed evs = addr_of i @ addr_of ou
            else r = 0 \<and> closed evs = [] \<and> freed evs = [] \<and>
                 acquired evs = handle_of i' @ handle_of ou' \<and>
                 addr_of i' = addr_of i \<and> addr_of ou' = addr_of ou \<and>
                 (i' = None \<longleftrightarrow> i = None) \<and> (ou' = None \<longleftrightarrow> ou = None) \<and>
                 (\<forall>u. i' = Some u \<or> ou' = Some u \<longrightarrow>
                        rawmidi u \<noteq> None \<and> cached evs u \<and> flags u AND INFO_UMP env \<noteq> 0))"
proof -
  obtain err hin hout w1 where ro:
    "snd_rawmidi_open env (i \<noteq> None) (ou \<noteq> None) name (mode OR OPEN_UMP env) w
       = (err, hin, hout, w1)"
    by (metis prod_cases4)
  from raw_open_spec [OF ro] obtain evs0 where t0: "trace w1 = trace w @ evs0"
    and q0: "allocated evs0 = []" "closed evs0 = []" "freed evs0 = []"
    and a0: "acquired evs0 = (case hin of None \<Rightarrow> [] | Some h \<Rightarrow> [h]) @
                             (case hout of None \<Rightarrow> [] | Some h \<Rightarrow> [h])"
    and d0: "distinct (acquired evs0)"
    and g0: "hin \<noteq> None \<longrightarrow> i \<noteq> None" "hout \<noteq> None \<longrightarrow> ou \<noteq> None"
    and s0: "\<not> err < 0 \<longrightarrow> (i \<noteq> None \<longrightarrow> hin \<noteq> None) \<and> (ou \<noteq> None \<longrightarrow> hout \<noteq> None)"
    by (elim exE conjE) (rule that)
  have hi: "handle_of (store_handle hin i) = (case hin of None \<Rightarrow> [] | Some v \<Rightarrow> [v])"
    using fresh(1) g0(1) by (rule handle_of_store)
  have ho: "handle_of (store_handle hout ou) = (case hout of None \<Rightarrow> [] | Some v \<Rightarrow> [v])"
    using fresh(2) g0(2) by (rule handle_of_store)
  have acq: "acquired evs0 = handle_of (store_handle hin i) @ handle_of (store_handle hout ou)"
    by (simp add: a0 hi ho)
  show ?thesis
  proof (cases "err < 0")
    case True
    with res have "error_exit env err (store_handle hin i) (store_handle hout ou) w1 = (r, i', ou', w')"
      unfolding open_raw_def ro by simp
    from error_exit_spec [OF this] obtain evs1 where "r = err" "i' = None" "ou' = None"
      "trace w' = trace w1 @ evs1" "acquired evs1 = []" "allocated evs1 = []"
      "closed evs1 = map Some (handle_of (store_handle hin i) @ handle_of (store_handle hout ou))"
      "freed evs1 = addr_of (store_handle hin i) @ addr_of (store_handle hout ou)"
      by (elim exE conjE) (rule that)
    with True t0 q0 d0 acq show ?thesis
      by (intro exI [of _ "evs0 @ evs1"]) simp
  next
    case False
    with res have fl: "open_flags env (store_handle hin i) (store_handle hout ou) w1 = (r, i', ou', w')"
      unfolding open_raw_def ro by simp
    from open_flags_spec [OF fl] obtain evs1 where t1: "trace w' = trace w1 @ evs1"
      and q1: "acquired evs1 = []" "allocated evs1 = []"
      and r1: "if r < 0
            then i' = None \<and> ou' = None \<and>
                 closed evs1 = map Some (handle_of (store_handle hin i) @ handle_of (store_handle hout ou)) \<and>
                 freed evs1 = addr_of (store_handle hin i) @ addr_of (store_handle hout ou)
            else r = 0 \<and> closed evs1 = [] \<and> freed evs1 = [] \<and>
                 handle_of i' = handle_of (store_handle hin i) \<and>
                 handle_of ou' = handle_of (store_handle hout ou) \<and>
                 addr_of i' = addr_of (store_handle hin i) \<and>
                 addr_of ou' = addr_of (store_handle hout ou) \<and>
                 (\<forall>u. i' = Some u \<or> ou' = Some u \<longrightarrow>
                        cached evs1 u \<and> flags u AND INFO_UMP env \<noteq> 0)"
      by (elim exE conjE) (rule that)
    have tr: "trace w' = trace w @ (evs0 @ evs1)" using t0 t1 by simp
    show ?thesis
    proof (cases "r < 0")
      case True
      with r1 q0 q1 d0 acq tr show ?thesis
        by (intro exI [of _ "evs0 @ evs1"]) simp
    next
      case nr: False
      with r1 have r0: "r = 0" and cl: "closed evs1 = []" "freed evs1 = []"
        and hh: "handle_of i' = handle_of (store_handle hin i)"
                "handle_of ou' = handle_of (store_handle hout ou)"
        and aa: "addr_of i' = addr_of i" "addr_of ou' = addr_of ou"
        and cc: "\<forall>u. i' = Some u \<or> ou' = Some u \<longrightarrow> cached evs1 u \<and> flags u AND INFO_UMP env \<noteq> 0"
        by simp_all
      have ni: "i' = None \<longleftrightarrow> i = None" using aa(1)
        by (auto simp: addr_of_def split: option.splits)
      have no: "ou' = None \<longleftrightarrow> ou = None" using aa(2)
        by (auto simp: addr_of_def split: option.splits)
      have rm: "\<forall>u. i' = Some u \<or> ou' = Some u \<longrightarrow> rawmidi u \<noteq> None"
      proof (intro allI impI)
        fix u assume "i' = Some u \<or> ou' = Some u"
        then show "rawmidi u \<noteq> None"
        proof
          assume u: "i' = Some u"
          with ni have "i \<noteq> None" by auto
          with s0 False obtain h where "hin = Some h" by auto
          with hh(1) hi u have "handle_of (Some u) \<noteq> []" by simp
          then show ?thesis by (rule handle_of_Some_nonempty)
        next
          assume u: "ou' = Some u"
          with no have "ou \<noteq> None" by auto
          with s0 False obtain h where "hout = Some h" by auto
          with hh(2) ho u have "handle_of (Some u) \<noteq> []" by simp
          then show ?thesis by (rule handle_of_Some_nonempty)
        qed
      qed
      from nr r0 cl hh aa cc ni no rm q0 q1 d0 acq tr show ?thesis
        by (intro exI [of _ "evs0 @ evs1"]) simp
    qed
  qed
qed

lemma calloc_ump_spec:
  assumes "calloc_ump env w = (p, w')"
  shows "(p = None \<and> w' = w) \<or>
         (\<exists>u. p = Some u \<and> self u = next_addr w \<and> rawmidi u = None \<and>
              next_addr w' = Suc (next_addr w) \<and> trace w' = trace w @ [Alloc (next_addr w)])"
  using assms by (auto simp: calloc_ump_def emit_def split: if_splits)

lemma open_output_spec:
  assumes res: "open_output env outputp i name mode w = (r, i', ou', w')"
    and fresh: "handle_of i = []"
  shows "\<exists>evs. trace w' = trace w @ evs \<and> distinct (acquired evs) \<and>
           (allocated evs = [] \<or> allocated evs = [next_addr w]) \<and>
           (if r < 0
            then i' = None \<and> ou' = None \<and> closed evs = map Some (acquired evs) \<and>
                 freed evs = addr_of i @ allocated evs
            else r = 0 \<and> closed evs = [] \<and> freed evs = [] \<and>
                 acquired evs = handle_of i' @ handle_of ou' \<and>
                 addr_of i' = addr_of i \<and> addr_of ou' = allocated evs \<and>
                 (i' = None \<longleftrightarrow> i = None) \<and> (ou' = None \<longleftrightarrow> \<not> outputp) \<and>
                 (\<forall>u. i' = Some u \<or> ou' = Some u \<longrightarrow>
                        rawmidi u \<noteq> None \<and> cached evs u \<and> flags u AND INFO_UMP env \<noteq> 0))"
proof (cases outputp)
  case False
  with res have "open_raw env i None name mode w = (r, i', ou', w')"
    by (simp add: open_output_def)
  from open_raw_spec [OF this fresh] show ?thesis
    using False by auto
next
  case True
  obtain p w1 where ca: "calloc_ump env w = (p, w1)" by (metis surj_pair)
  from calloc_ump_spec [OF ca] show ?thesis
  proof (elim disjE exE conjE)
    assume "p = None" "w1 = w"
    with res True ca have "error_exit env (- ENOMEM) i None w = (r, i', ou', w')"
      by (simp add: open_output_def)
    from error_exit_spec [OF this] show ?thesis
      by (auto simp: ENOMEM_def fresh)
  next
    fix u assume u: "p = Some u" "self u = next_addr w" "rawmidi u = None"
      and t1: "trace w1 = trace w @ [Alloc (next_addr w)]"
    with res True ca have orw: "open_raw env i (Some u) name mode w1 = (r, i', ou', w')"
      by (simp add: open_output_def)
    have hs: "handle_of (Some u) = []" using u by (simp add: handle_of_def)
    from open_raw_spec [OF orw fresh hs] obtain evs where e: "trace w' = trace w1 @ evs" "allocated evs = []"
      "distinct (acquired evs)"
      "if r < 0
            then i' = None \<and> ou' = None \<and> closed evs = map Some (acquired evs) \<and>
                 freed evs = addr_of i @ addr_of (Some u)
            else r = 0 \<and> closed evs = [] \<and> freed evs = [] \<and>
                 acquired evs = handle_of i' @ handle_of ou' \<and>
                 addr_of i' = addr_of i \<and> addr_of ou' = addr_of (Some u) \<and>
                 (i' = None \<longleftrightarrow> i = None) \<and> (ou' = None \<longleftrightarrow> Some u = None) \<and>
                 (\<forall>u. i' = Some u \<or> ou' = Some u \<longrightarrow>
                        rawmidi u \<noteq> None \<and> cached evs u \<and> flags u AND INFO_UMP env \<noteq> 0)"
      by (elim exE conjE) (rule that)
    show ?thesis
      using e t1 u True
      by (intro exI [of _ "Alloc (next_addr w) # evs"]) (cases "r < 0"; simp)
  qed
qed

lemma snd_ump_open_spec:
  assumes res: "snd_ump_open env inputp outputp name mode w = (r, i', ou', w')"
  shows "\<exists>evs. trace w' = trace w @ evs \<and> distinct (acquired evs) \<and> distinct (allocated evs) \<and>
           (if r < 0
            then i' = None \<and> ou' = None \<and> closed evs = map Some (acquired evs) \<and>
                 freed evs = allocated evs
            else r = 0 \<and> closed evs = [] \<and> freed evs = [] \<and>
                 acquired evs = handle_of i' @ handle_of ou' \<and>
                 allocated evs = addr_of i' @ addr_of ou' \<and>
                 (i' = None \<longleftrightarrow> \<not> inputp) \<and> (ou' = None \<longleftrightarrow> \<not> outputp) \<and>
                 (\<forall>u. i' = Some u \<or> ou' = Some u \<longrightarrow>
                        rawmidi u \<noteq> None \<and> cached evs u \<and> flags u AND INFO_UMP env \<noteq> 0))"
proof (cases "\<not> inputp \<and> \<not> outputp")
  case True
  with res show ?thesis by (auto simp: snd_ump_open_def EINVAL_def)
next
  case dir: False
  show ?thesis
  proof (cases inputp)
    case False
    with res dir have "open_output env outputp None name mode w = (r, i', ou', w')"
      by (simp add: snd_ump_open_def)
    from open_output_spec [OF this] show ?thesis
      using False by auto
  next
    case True
    obtain p w1 where ca: "calloc_ump env w = (p, w1)" by (metis surj_pair)
    from calloc_ump_spec [OF ca] show ?thesis
    proof (elim disjE exE conjE)
      assume "p = None" "w1 = w"
      with res True ca have "error_exit env (- ENOMEM) None None w = (r, i', ou', w')"
        by (simp add: snd_ump_open_def)
      from error_exit_spec [OF this] show ?thesis
        by (auto simp: ENOMEM_def)
    next
      fix u assume u: "p = Some u" "self u = next_addr w" "rawmidi u = None"
        and n1: "next_addr w1 = Suc (next_addr w)"
        and t1: "trace w1 = trace w @ [Alloc (next_addr w)]"
      let ?i = "Some (u\<lparr>is_input := 1\<rparr>)"
      from res True ca u have oo: "open_output env outputp ?i name mode w1 = (r, i', ou', w')"
        by (simp add: snd_ump_open_def)
      have fr: "handle_of ?i = []" using u by (simp add: handle_of_def)
      have ai: "addr_of ?i = [next_addr w]" using u by simp
      obtain evs where e: "trace w' = trace w1 @ evs" "distinct (acquired evs)"
        "allocated evs = [] \<or> allocated evs = [next_addr w1]"
        "if r < 0
            then i' = None \<and> ou' = None \<and> closed evs = map Some (acquired evs) \<and>
                 freed evs = addr_of ?i @ allocated evs
            else r = 0 \<and> closed evs = [] \<and> freed evs = [] \<and>
                 acquired evs = handle_of i' @ handle_of ou' \<and>
                 addr_of i' = addr_of ?i \<and> addr_of ou' = allocated evs \<and>
                 (i' = None \<longleftrightarrow> ?i = None) \<and> (ou' = None \<longleftrightarrow> \<not> outputp) \<and>
                 (\<forall>u. i' = Some u \<or> ou' = Some u \<longrightarrow>
                        rawmidi u \<noteq> None \<and> cached evs u \<and> flags u AND INFO_UMP env \<noteq> 0)"
        using open_output_spec [OF oo fr] by (elim exE conjE) (rule that)
      have d: "distinct (next_addr w # allocated evs)"
        using e(3) n1 by auto
      show ?thesis
        using e(1,2,4) d t1 True unfolding ai
        by (intro exI [of _ "Alloc (next_addr w) # evs"]) (cases "r < 0"; simp)
    qed
  qed
qed

lemma snd_ump_close_spec:
  "new_events v (snd (snd_ump_close env u v)) = [RawClose (rawmidi u), Free (self u)] \<and>
   fst (snd_ump_close env u v) = close_res env v (rawmidi u)"
  by (simp add: snd_ump_close_def snd_rawmidi_close_def free_ump_def emit_def new_events_def)

subsection \<open>What the open does after a query without the UMP bit\<close>

lemma saw_no_ump_simps [simp]:
  "saw_no_ump env [] = False"
  "saw_no_ump env (xs @ ys) = (saw_no_ump env xs \<or> saw_no_ump env ys)"
  "saw_no_ump env (Alloc a # evs) = saw_no_ump env evs"
  "saw_no_ump env (Free a # evs) = saw_no_ump env evs"
  "saw_no_ump env (RawOpen p q nm m # evs) = saw_no_ump env evs"
  "saw_no_ump env (Acquire h # evs) = saw_no_ump env evs"
  "saw_no_ump env (RawClose c # evs) = saw_no_ump env evs"
  "saw_no_ump env (RawInfo c err fl # evs) =
     ((0 \<le> err \<and> fl AND INFO_UMP env = 0) \<or> saw_no_ump env evs)"
  by (simp_all add: saw_no_ump_def)

lemma get_flags_saw:
  assumes "get_rawmidi_flags env u w = (e, u', w')"
  shows "\<exists>ev. trace w' = trace w @ [ev] \<and> (saw_no_ump env [ev] \<longrightarrow> e = - EINVAL)"
  using assms
  by (cases "info_res env w (rawmidi u)")
     (auto simp: get_rawmidi_flags_def snd_rawmidi_info_def emit_def split: if_splits)

lemma error_exit_saw:
  assumes "error_exit env err i ou w = (r, i', ou', w')"
  shows "r = err \<and> (\<exists>evs. trace w' = trace w @ evs \<and> \<not> saw_no_ump env evs)"
  using assms
  by (auto simp: error_exit_def release_def free_ump_def snd_rawmidi_close_def emit_def
           split: option.splits)

lemma open_flags_saw:
  assumes res: "open_flags env i ou w = (r, i', ou', w')"
  shows "\<exists>evs. trace w' = trace w @ evs \<and> (saw_no_ump env evs \<longrightarrow> r = - EINVAL)"
proof -
  obtain e1 i1 w1 where s1:
    "(case i of None \<Rightarrow> (0, None, w)
      | Some u \<Rightarrow> (let (e, u', w') = get_rawmidi_flags env u w in (e, Some u', w'))) = (e1, i1, w1)"
    by (metis prod_cases3)
  have "\<exists>evs. trace w1 = trace w @ evs \<and> (saw_no_ump env evs \<longrightarrow> e1 = - EINVAL)"
  proof (cases i)
    case None
    with s1 show ?thesis by auto
  next
    case (Some u)
    obtain e u' wa where g: "get_rawmidi_flags env u w = (e, u', wa)" by (metis prod_cases3)
    from get_flags_saw [OF g] Some s1 g show ?thesis by auto
  qed
  then obtain evs1 where t1: "trace w1 = trace w @ evs1"
    and c1: "saw_no_ump env evs1 \<longrightarrow> e1 = - EINVAL"
    by (elim exE conjE) (rule that)
  show ?thesis
  proof (cases "e1 < 0")
    case True
    with res s1 have "error_exit env e1 i1 ou w1 = (r, i', ou', w')"
      by (simp add: open_flags_def)
    from error_exit_saw [OF this] obtain evs2 where "r = e1" "trace w' = trace w1 @ evs2"
      "\<not> saw_no_ump env evs2"
      by (elim exE conjE) (rule that)
    with t1 c1 show ?thesis
      by (intro exI [of _ "evs1 @ evs2"]) simp
  next
    case False
    with c1 have n1: "\<not> saw_no_ump env evs1" by (auto simp: EINVAL_def)
    obtain e2 o2 w2 where s2:
      "(case ou of None \<Rightarrow> (e1, None, w1)
        | Some u \<Rightarrow> (let (e, u', w') = get_rawmidi_flags env u w1 in (e, Some u', w'))) = (e2, o2, w2)"
      by (metis prod_cases3)
    have "\<exists>evs. trace w2 = trace w1 @ evs \<and> (saw_no_ump env evs \<longrightarrow> e2 = - EINVAL)"
    proof (cases ou)
      case None
      with s2 show ?thesis by auto
    next
      case (Some u)
      obtain e u' wa where g: "get_rawmidi_flags env u w1 = (e, u', wa)" by (metis prod_cases3)
      from get_flags_saw [OF g] Some s2 g show ?thesis by auto
    qed
    then obtain evs2 where t2: "trace w2 = trace w1 @ evs2"
      and c2: "saw_no_ump env evs2 \<longrightarrow> e2 = - EINVAL"
      by (elim exE conjE) (rule that)
    show ?thesis
    proof (cases "e2 < 0")
      case True
      with res s1 s2 False have "error_exit env e2 i1 o2 w2 = (r, i', ou', w')"
        by (simp add: open_flags_def)
      from error_exit_saw [OF this] obtain evs3 where "r = e2" "trace w' = trace w2 @ evs3"
        "\<not> saw_no_ump env evs3"
        by (elim exE conjE) (rule that)
      with t1 t2 n1 c2 show ?thesis
        by (intro exI [of _ "evs1 @ evs2 @ evs3"]) simp
    next
      case e2: False
      with c2 have n2: "\<not> saw_no_ump env evs2" by (auto simp: EINVAL_def)
      from res s1 s2 False e2 have "w' = w2"
        by (simp add: open_flags_def)
      with t1 t2 n1 n2 show ?thesis
        by (intro exI [of _ "evs1 @ evs2"]) simp
    qed
  qed
qed

lemma raw_open_saw:
  assumes "snd_rawmidi_open env a b name mode w = (err, hin, hout, w')"
  shows "\<exists>evs. trace w' = trace w @ evs \<and> \<not> saw_no_ump env evs"
  using assms
  by (cases "open_res env w a b name mode")
     (auto simp: snd_rawmidi_open_def emit_def Let_def split: if_splits)

lemma open_raw_saw:
  assumes res: "open_raw env i ou name mode w = (r, i', ou', w')"
  shows "\<exists>evs. trace w' = trace w @ evs \<and> (saw_no_ump env evs \<longrightarrow> r = - EINVAL)"
proof -
  obtain err hin hout w1 where ro:
    "snd_rawmidi_open env (i \<noteq> None) (ou \<noteq> None) name (mode OR OPEN_UMP env) w
       = (err, hin, hout, w1)"
    by (metis prod_cases4)
  from raw_open_saw [OF ro] obtain evs0 where t0: "trace w1 = trace w @ evs0"
    and n0: "\<not> saw_no_ump env evs0"
    by (elim exE conjE) (rule that)
  show ?thesis
  proof (cases "err < 0")
    case True
    with res have "error_exit env err (store_handle hin i) (store_handle hout ou) w1 = (r, i', ou', w')"
      unfolding open_raw_def ro by simp
    from error_exit_saw [OF this] obtain evs1 where "trace w' = trace w1 @ evs1"
      "\<not> saw_no_ump env evs1"
      by (elim exE conjE) (rule that)
    with t0 n0 show ?thesis
      by (intro exI [of _ "evs0 @ evs1"]) simp
  next
    case False
    with res have "open_flags env (store_handle hin i) (store_handle hout ou) w1 = (r, i', ou', w')"
      unfolding open_raw_def ro by simp
    from open_flags_saw [OF this] obtain evs1 where "trace w' = trace w1 @ evs1"
      "saw_no_ump env evs1 \<longrightarrow> r = - EINVAL"
      by (elim exE conjE) (rule that)
    with t0 n0 show ?thesis
      by (intro exI [of _ "evs0 @ evs1"]) simp
  qed
qed

lemma open_output_saw:
  assumes res: "open_output env outputp i name mode w = (r, i', ou', w')"
  shows "\<exists>evs. trace w' = trace w @ evs \<and> (saw_no_ump env evs \<longrightarrow> r = - EINVAL)"
proof (cases outputp)
  case False
  with res have "open_raw env i None name mode w = (r, i', ou', w')"
    by (simp add: open_output_def)
  then show ?thesis by (rule open_raw_saw)
next
  case True
  obtain p w1 where ca: "calloc_ump env w = (p, w1)" by (metis surj_pair)
  from calloc_ump_spec [OF ca] show ?thesis
  proof (elim disjE exE conjE)
    assume "p = None" "w1 = w"
    with res True ca have "error_exit env (- ENOMEM) i None w = (r, i', ou', w')"
      by (simp add: open_output_def)
    from error_exit_saw [OF this] show ?thesis by auto
  next
    fix u assume u: "p = Some u" and t1: "trace w1 = trace w @ [Alloc (next_addr w)]"
    with res True ca have "open_raw env i (Some u) name mode w1 = (r, i', ou', w')"
      by (simp add: open_output_def)
    from open_raw_saw [OF this] obtain evs where "trace w' = trace w1 @ evs"
      "saw_no_ump env evs \<longrightarrow> r = - EINVAL"
      by (elim exE conjE) (rule that)
    with t1 show ?thesis
      by (intro exI [of _ "Alloc (next_addr w) # evs"]) simp
  qed
qed

lemma snd_ump_open_saw:
  assumes res: "snd_ump_open env inputp outputp name mode w = (r, i', ou', w')"
  shows "\<exists>evs. trace w' = trace w @ evs \<and> (saw_no_ump env evs \<longrightarrow> r = - EINVAL)"
proof (cases "\<not> inputp \<and> \<not> outputp")
  case True
  with res show ?thesis by (auto simp: snd_ump_open_def)
next
  case dir: False
  show ?thesis
  proof (cases inputp)
    case False
    with res dir have "open_output env outputp None name mode w = (r, i', ou', w')"
      by (simp add: snd_ump_open_def)
    then show ?thesis by (rule open_output_saw)
  next
    case True
    obtain p w1 where ca: "calloc_ump env w = (p, w1)" by (metis surj_pair)
    from calloc_ump_spec [OF ca] show ?thesis
    proof (elim disjE exE conjE)
      assume "p = None" "w1 = w"
      with res True ca have "error_exit env (- ENOMEM) None None w = (r, i', ou', w')"
        by (simp add: snd_ump_open_def)
      from error_exit_saw [OF this] show ?thesis by auto
    next
      fix u assume u: "p = Some u" and t1: "trace w1 = trace w @ [Alloc (next_addr w)]"
      from res True ca u
      have "open_output env outputp (Some (u\<lparr>is_input := 1\<rparr>)) name mode w1 = (r, i', ou', w')"
        by (simp add: snd_ump_open_def)
      from open_output_saw [OF this] obtain evs where "trace w' = trace w1 @ evs"
        "saw_no_ump env evs \<longrightarrow> r = - EINVAL"
        by (elim exE conjE) (rule that)
      with t1 show ?thesis
        by (intro exI [of _ "Alloc (next_addr w) # evs"]) simp
    qed
  qed
qed

subsection \<open>Opening and closing\<close>

text \<open>
  Claim C8. In every call of \<open>snd_ump_open\<close> in which an info query succeeds with
  flags that lack the UMP bit, the result is \<open>-EINVAL\<close> and no handle is handed out.
  When \<open>snd_ump_open\<close> returns 0, the flags of every handle it hands out are the flags
  that a successful info query on the wrapped handle answered during the call, and they
  have the UMP bit. The first part in terms of the layer: when a direction is requested,
  the wrappers can be allocated, the raw-MIDI open succeeds and every info query succeeds
  with flags that lack the UMP bit, the result is \<open>-EINVAL\<close> and no handle is handed out.
\<close>

theorem ump_open_requires_ump:
  "(snd_ump_open env inputp outputp name mode w = (r, i', ou', w') \<longrightarrow>
      (saw_no_ump env (new_events w w') \<longrightarrow> r = - EINVAL \<and> i' = None \<and> ou' = None) \<and>
      (r = 0 \<longrightarrow>
         (\<forall>u. i' = Some u \<or> ou' = Some u \<longrightarrow>
            cached (new_events w w') u \<and> flags u AND INFO_UMP env \<noteq> 0))) \<and>
   ((inputp \<or> outputp) \<and> (\<forall>v. calloc_ok env v) \<and>
    (\<forall>v a b nm m. 0 \<le> fst (open_res env v a b nm m)) \<and>
    (\<forall>v h. 0 \<le> fst (info_res env v h) \<and> snd (info_res env v h) AND INFO_UMP env = 0) \<longrightarrow>
      fst (snd_ump_open env inputp outputp name mode w) = - EINVAL \<and>
      fst (snd (snd_ump_open env inputp outputp name mode w)) = None \<and>
      fst (snd (snd (snd_ump_open env inputp outputp name mode w))) = None)"
proof (intro conjI impI)
  assume h: "(inputp \<or> outputp) \<and> (\<forall>v. calloc_ok env v) \<and>
    (\<forall>v a b nm m. 0 \<le> fst (open_res env v a b nm m)) \<and>
    (\<forall>v h. 0 \<le> fst (info_res env v h) \<and> snd (info_res env v h) AND INFO_UMP env = 0)"
  then obtain i ou v where
    e: "snd_ump_open env inputp outputp name mode w = error_exit env (- EINVAL) i ou v"
    using open_no_ump_rejected [of inputp outputp env name mode w] by blast
  show "fst (snd_ump_open env inputp outputp name mode w) = - EINVAL"
    unfolding e by simp
  show "fst (snd (snd_ump_open env inputp outputp name mode w)) = None"
    unfolding e by simp
  show "fst (snd (snd (snd_ump_open env inputp outputp name mode w))) = None"
    unfolding e by simp
next
  assume res: "snd_ump_open env inputp outputp name mode w = (r, i', ou', w')"
    and saw: "saw_no_ump env (new_events w w')"
  from snd_ump_open_saw [OF res] obtain evs where t: "trace w' = trace w @ evs"
    and c: "saw_no_ump env evs \<longrightarrow> r = - EINVAL"
    by (elim exE conjE) (rule that)
  have ne: "new_events w w' = evs" using t by (rule new_events_append)
  with saw c show r: "r = - EINVAL" by simp
  from snd_ump_open_spec [OF res] r show "i' = None" "ou' = None"
    by (auto simp: EINVAL_def)
next
  assume res: "snd_ump_open env inputp outputp name mode w = (r, i', ou', w')" and r: "r = 0"
  from snd_ump_open_spec [OF res] r obtain evs where t: "trace w' = trace w @ evs"
    and c: "\<forall>u. i' = Some u \<or> ou' = Some u \<longrightarrow>
                rawmidi u \<noteq> None \<and> cached evs u \<and> flags u AND INFO_UMP env \<noteq> 0"
    by auto
  have ne: "new_events w w' = evs" using t by (rule new_events_append)
  show "\<forall>u. i' = Some u \<or> ou' = Some u \<longrightarrow>
         cached (new_events w w') u \<and> flags u AND INFO_UMP env \<noteq> 0"
    unfolding ne using c by blast
qed

text \<open>
  Claim C8 on a device without UMP, where the query on the input handle is answered
  without the bit, and on a UMP device.
\<close>

theorem ump_open_requires_ump_witness:
  "snd_ump_open plain_device True True ''ump'' 0 world0 =
     (- 22, None, None,
      \<lparr>next_addr = 2, next_handle = 2,
       trace = [Alloc 0, Alloc 1, RawOpen True True ''ump'' 1073741824, Acquire 0, Acquire 1,
                RawInfo (Some 0) 0 0, RawClose (Some 0), Free 0, RawClose (Some 1), Free 1]\<rparr>) \<and>
   saw_no_ump plain_device
     [Alloc 0, Alloc 1, RawOpen True True ''ump'' 1073741824, Acquire 0, Acquire 1,
      RawInfo (Some 0) 0 0, RawClose (Some 0), Free 0, RawClose (Some 1), Free 1] \<and>
   snd_ump_open ump_device True False ''ump'' 0 world0 =
     (0, Some \<lparr>self = 0, rawmidi = Some 0, is_input = 1, flags = 8\<rparr>, None,
      \<lparr>next_addr = 1, next_handle = 1,
       trace = [Alloc 0, RawOpen True False ''ump'' 1073741824, Acquire 0, RawInfo (Some 0) 0 8]\<rparr>) \<and>
   cached [Alloc 0, RawOpen True False ''ump'' 1073741824, Acquire 0, RawInfo (Some 0) 0 8]
     \<lparr>self = 0, rawmidi = Some 0, is_input = 1, flags = 8\<rparr>"
proof -
  have q: "snd_ump_open plain_device True True ''ump'' 0 world0 =
     (- 22, None, None,
      \<lparr>next_addr = 2, next_handle = 2,
       trace = [Alloc 0, Alloc 1, RawOpen True True ''ump'' 1073741824, Acquire 0, Acquire 1,
                RawInfo (Some 0) 0 0, RawClose (Some 0), Free 0, RawClose (Some 1), Free 1]\<rparr>)"
    by (simp add: ump_eval)
  have r: "snd_ump_open ump_device True False ''ump'' 0 world0 =
     (0, Some \<lparr>self = 0, rawmidi = Some 0, is_input = 1, flags = 8\<rparr>, None,
      \<lparr>next_addr = 1, next_handle = 1,
       trace = [Alloc 0, RawOpen True False ''ump'' 1073741824, Acquire 0, RawInfo (Some 0) 0 8]\<rparr>)"
    by (simp add: ump_eval)
  have s: "saw_no_ump plain_device
     [Alloc 0, Alloc 1, RawOpen True True ''ump'' 1073741824, Acquire 0, Acquire 1,
      RawInfo (Some 0) 0 0, RawClose (Some 0), Free 0, RawClose (Some 1), Free 1]"
    by (simp add: saw_no_ump_def plain_device_def)
  have p: "(True \<or> True) \<and> (\<forall>v. calloc_ok plain_device v) \<and>
    (\<forall>v a b nm m. 0 \<le> fst (open_res plain_device v a b nm m)) \<and>
    (\<forall>v h. 0 \<le> fst (info_res plain_device v h) \<and>
           snd (info_res plain_device v h) AND INFO_UMP plain_device = 0)"
    by (simp add: plain_device_def)
  from ump_open_requires_ump [of ump_device True False "''ump''" 0 world0 0
      "Some \<lparr>self = 0, rawmidi = Some 0, is_input = 1, flags = 8\<rparr>" None
      "\<lparr>next_addr = 1, next_handle = 1,
       trace = [Alloc 0, RawOpen True False ''ump'' 1073741824, Acquire 0, RawInfo (Some 0) 0 8]\<rparr>"] r
  have b: "cached (new_events world0 \<lparr>next_addr = 1, next_handle = 1,
       trace = [Alloc 0, RawOpen True False ''ump'' 1073741824, Acquire 0, RawInfo (Some 0) 0 8]\<rparr>)
     \<lparr>self = 0, rawmidi = Some 0, is_input = 1, flags = 8\<rparr>"
    by blast
  from ump_open_requires_ump [of plain_device True True "''ump''" 0 world0 "- 22" None None
      "\<lparr>next_addr = 2, next_handle = 2,
       trace = [Alloc 0, Alloc 1, RawOpen True True ''ump'' 1073741824, Acquire 0, Acquire 1,
                RawInfo (Some 0) 0 0, RawClose (Some 0), Free 0, RawClose (Some 1), Free 1]\<rparr>"] p
  have a: "fst (snd_ump_open plain_device True True ''ump'' 0 world0) = - EINVAL"
    by blast
  from a b q r s show ?thesis
    by (simp add: new_events_def world0_def)
qed

text \<open>
  Claim C3. Whatever \<open>snd_ump_open\<close> returns, the raw-MIDI handles handed out during
  the call are pairwise different, and so are the wrappers allocated. When the result is
  negative, the handles closed during the call are exactly the handles handed out, each
  once and in the same order, and the wrappers freed are exactly the wrappers allocated.
  When the result is not negative, nothing is closed or freed, the handles handed out
  are exactly those of the returned wrappers, every returned wrapper holds a handle, and
  \<open>snd_ump_close\<close> on a returned wrapper, in any world, closes that handle once and
  frees that wrapper once.
\<close>

theorem ump_handles_released_once:
  "snd_ump_open env inputp outputp name mode w = (r, i', ou', w') \<longrightarrow>
     distinct (acquired (new_events w w')) \<and> distinct (allocated (new_events w w')) \<and>
     (r < 0 \<longrightarrow>
        closed (new_events w w') = map Some (acquired (new_events w w')) \<and>
        freed (new_events w w') = allocated (new_events w w')) \<and>
     (\<not> r < 0 \<longrightarrow>
        closed (new_events w w') = [] \<and> freed (new_events w w') = [] \<and>
        acquired (new_events w w') = handle_of i' @ handle_of ou' \<and>
        allocated (new_events w w') = addr_of i' @ addr_of ou' \<and>
        (\<forall>u v. i' = Some u \<or> ou' = Some u \<longrightarrow>
           rawmidi u \<noteq> None \<and>
           new_events v (snd (snd_ump_close env u v)) = [RawClose (rawmidi u), Free (self u)]))"
proof
  assume res: "snd_ump_open env inputp outputp name mode w = (r, i', ou', w')"
  from snd_ump_open_spec [OF res] obtain evs where t: "trace w' = trace w @ evs"
    and d: "distinct (acquired evs)" "distinct (allocated evs)"
    and c: "if r < 0
            then i' = None \<and> ou' = None \<and> closed evs = map Some (acquired evs) \<and>
                 freed evs = allocated evs
            else r = 0 \<and> closed evs = [] \<and> freed evs = [] \<and>
                 acquired evs = handle_of i' @ handle_of ou' \<and>
                 allocated evs = addr_of i' @ addr_of ou' \<and>
                 (i' = None \<longleftrightarrow> \<not> inputp) \<and> (ou' = None \<longleftrightarrow> \<not> outputp) \<and>
                 (\<forall>u. i' = Some u \<or> ou' = Some u \<longrightarrow>
                        rawmidi u \<noteq> None \<and> cached evs u \<and> flags u AND INFO_UMP env \<noteq> 0)"
    by (elim exE conjE) (rule that)
  have ne: "new_events w w' = evs" using t by (rule new_events_append)
  show "distinct (acquired (new_events w w')) \<and> distinct (allocated (new_events w w')) \<and>
     (r < 0 \<longrightarrow>
        closed (new_events w w') = map Some (acquired (new_events w w')) \<and>
        freed (new_events w w') = allocated (new_events w w')) \<and>
     (\<not> r < 0 \<longrightarrow>
        closed (new_events w w') = [] \<and> freed (new_events w w') = [] \<and>
        acquired (new_events w w') = handle_of i' @ handle_of ou' \<and>
        allocated (new_events w w') = addr_of i' @ addr_of ou' \<and>
        (\<forall>u v. i' = Some u \<or> ou' = Some u \<longrightarrow>
           rawmidi u \<noteq> None \<and>
           new_events v (snd (snd_ump_close env u v)) = [RawClose (rawmidi u), Free (self u)]))"
    unfolding ne using d c by (cases "r < 0") (simp_all add: snd_ump_close_spec)
qed

text \<open>
  Claim C3 on a device without UMP, where both handles are opened and the open then
  fails, and on a UMP device, where the open succeeds and the input handle is closed.
\<close>

theorem ump_handles_released_once_witness:
  "closed (new_events world0 (snd (snd (snd (snd_ump_open plain_device True True ''ump'' 0 world0)))))
     = [Some 0, Some 1] \<and>
   freed (new_events world0 (snd (snd (snd (snd_ump_open plain_device True True ''ump'' 0 world0)))))
     = [0, 1] \<and>
   fst (snd_ump_open plain_device True True ''ump'' 0 world0) = - 22 \<and>
   fst (snd_ump_open ump_device True True ''ump'' 0 world0) = 0 \<and>
   acquired (new_events world0 (snd (snd (snd (snd_ump_open ump_device True True ''ump'' 0 world0)))))
     = [0, 1] \<and>
   closed (new_events world0 (snd (snd (snd (snd_ump_open ump_device True True ''ump'' 0 world0)))))
     = [] \<and>
   fst (snd (snd_ump_open ump_device True True ''ump'' 0 world0)) =
     Some \<lparr>self = 0, rawmidi = Some 0, is_input = 1, flags = 8\<rparr> \<and>
   new_events world0
     (snd (snd_ump_close ump_device \<lparr>self = 0, rawmidi = Some 0, is_input = 1, flags = 8\<rparr> world0))
     = [RawClose (Some 0), Free 0]"
  using ump_handles_released_once [of plain_device True True "''ump''" 0 world0 "- 22" None None
      "snd (snd (snd (snd_ump_open plain_device True True ''ump'' 0 world0)))"]
    ump_handles_released_once [of ump_device True True "''ump''" 0 world0 0
      "fst (snd (snd_ump_open ump_device True True ''ump'' 0 world0))"
      "fst (snd (snd (snd_ump_open ump_device True True ''ump'' 0 world0)))"
      "snd (snd (snd (snd_ump_open ump_device True True ''ump'' 0 world0)))"]
  by (simp add: ump_eval)

section \<open>Properties of the PCM file plugin\<close>

subsection \<open>The interleaved and non-interleaved transfers\<close>

lemma file_writei_bytes:
  assumes "snd_pcm_file_writei env pcm buffer sz w = Inr (n, w')"
  shows "n = slave_res env w (slave (private_data pcm)) (SWritei buffer sz) \<and>
         file_pos w' = file_pos w + (if 0 < n then snd_pcm_frames_to_bytes pcm n else 0)"
  using assms
  by (auto simp: snd_pcm_file_writei_def slave_call_def sys_write_def Let_def
           snd_pcm_frames_to_bytes_def split: if_splits)

lemma file_readi_bytes:
  assumes "snd_pcm_file_readi env pcm buffer sz w = Inr (n, w')"
  shows "n = slave_res env w (slave (private_data pcm)) (SReadi buffer sz) \<and>
         file_pos w' = file_pos w + (if 0 < n then snd_pcm_frames_to_bytes pcm n else 0)"
  using assms
  by (auto simp: snd_pcm_file_readi_def slave_call_def sys_write_def Let_def
           snd_pcm_frames_to_bytes_def split: if_splits)

lemma file_readn_is_writen:
  "snd_pcm_file_readn env pcm bufs sz w = snd_pcm_file_writen env pcm bufs sz w"
  by (simp add: snd_pcm_file_readn_def snd_pcm_file_writen_def)

text \<open>
  Claim C6. \<open>snd_pcm_file_readn\<close> calls \<open>snd_pcm_writen\<close> on the slave: the call
  recorded for a read of 4 frames into the buffers at 7 is \<open>SWriten 7 4\<close>.
\<close>

theorem file_readn_calls_writen:
  "snd_pcm_file_readn (slave_returns 4) pcm0 7 4 pcm_world0 =
     Inr (4, pcm_world0\<lparr>slave_calls := [(1, SWriten 7 4)], file_pos := 16,
                         writes := [(5, FromAreas 7 0 4, 16)]\<rparr>)"
  by (simp add: snd_pcm_file_readn_def snd_pcm_file_write_areas_def slave_call_def sys_write_def
        snd_pcm_frames_to_bytes_def slave_returns_def pcm0_def file0_def pcm_world0_def Let_def)

subsection \<open>The memory-mapped transfer\<close>

lemma mmap_step_bounds:
  assumes "xfer \<le> sz" "ofs < buffer_size pcm" "mmap_step pcm sz ofs xfer = (frames, ofs', xfer')"
  shows "frames \<le> sz - xfer \<and> ofs + frames \<le> buffer_size pcm \<and> xfer' \<le> sz \<and> ofs' < buffer_size pcm"
  using assms by (auto simp: mmap_step_def Let_def split: if_splits)

lemma write_areas_complete:
  assumes "\<forall>v d k. sys_write_res env v d k = int k"
  shows "snd_pcm_file_write_areas env pcm a ofs fr w =
           Inr (w\<lparr>file_pos := file_pos w + int (fr * frame_bytes pcm),
                  writes := writes w @ [(fd (private_data pcm), FromAreas a ofs fr, fr * frame_bytes pcm)]\<rparr>)"
  using assms
  by (simp add: snd_pcm_file_write_areas_def sys_write_def snd_pcm_frames_to_bytes_def Let_def
        nat_mult_distrib)

lemma mmap_loop_done: "\<not> xfer < n \<Longrightarrow> mmap_loop env pcm sz n ofs xfer w = Some (Inr w)"
  by (subst mmap_loop.simps) simp

lemma mmap_loop_step:
  assumes "xfer < n" "\<forall>v d k. sys_write_res env v d k = int k"
    and "mmap_step pcm sz ofs xfer = (fr, ofs', xfer')"
  shows "mmap_loop env pcm sz n ofs xfer w =
           mmap_loop env pcm sz n ofs' xfer'
             (w\<lparr>file_pos := file_pos w + int (fr * frame_bytes pcm),
                writes := writes w @ [(fd (private_data pcm), FromAreas (mmap_areas pcm) ofs fr,
                                       fr * frame_bytes pcm)]\<rparr>)"
  using assms(1,3) by (subst mmap_loop.simps) (simp add: write_areas_complete [OF assms(2)])

lemma mmap_loop_no_wrap:
  assumes "0 < n" "n \<le> sz" "ofs + n \<le> B" "buffer_size pcm = B"
    and wr: "\<forall>v d k. sys_write_res env v d k = int k"
  shows "mmap_loop env pcm sz n ofs 0 w =
           Some (Inr (w\<lparr>file_pos := file_pos w + int (min sz (B - ofs) * frame_bytes pcm),
                  writes := writes w @ [(fd (private_data pcm),
                     FromAreas (mmap_areas pcm) ofs (min sz (B - ofs)),
                     min sz (B - ofs) * frame_bytes pcm)]\<rparr>))"
proof -
  have st: "mmap_step pcm sz ofs 0 =
      (min sz (B - ofs), (if ofs + min sz (B - ofs) = B then 0 else ofs + min sz (B - ofs)),
       min sz (B - ofs))"
    using assms(4) by (auto simp: mmap_step_def Let_def min_def)
  have "\<not> min sz (B - ofs) < n" using assms(2,3) by auto
  then show ?thesis
    using assms(1) by (simp add: mmap_loop_step [OF _ wr st] mmap_loop_done)
qed

lemma mmap_loop_wrap:
  assumes "0 < n" "n \<le> sz" "n \<le> B" "ofs < B" "B < ofs + n" "buffer_size pcm = B"
    and wr: "\<forall>v d k. sys_write_res env v d k = int k"
  shows "mmap_loop env pcm sz n ofs 0 w =
           Some (Inr (w\<lparr>file_pos := file_pos w + int ((B - ofs) * frame_bytes pcm)
                                  + int (min (sz - (B - ofs)) B * frame_bytes pcm),
                  writes := writes w @
                    [(fd (private_data pcm), FromAreas (mmap_areas pcm) ofs (B - ofs),
                      (B - ofs) * frame_bytes pcm),
                     (fd (private_data pcm), FromAreas (mmap_areas pcm) 0 (min (sz - (B - ofs)) B),
                      min (sz - (B - ofs)) B * frame_bytes pcm)]\<rparr>))"
proof -
  have st1: "mmap_step pcm sz ofs 0 = (B - ofs, 0, B - ofs)"
    using assms(2-6) by (auto simp: mmap_step_def Let_def)
  have st2: "mmap_step pcm sz 0 (B - ofs) =
      (min (sz - (B - ofs)) B, (if min (sz - (B - ofs)) B = B then 0 else min (sz - (B - ofs)) B),
       (B - ofs) + min (sz - (B - ofs)) B)"
    using assms(6) by (auto simp: mmap_step_def Let_def min_def)
  have lt: "B - ofs < n" using assms(4,5) by auto
  have ge: "\<not> (B - ofs) + min (sz - (B - ofs)) B < n" using assms(2-5) by (auto simp: min_def)
  show ?thesis
    using assms(1)
    by (simp add: mmap_loop_step [OF _ wr st1] mmap_loop_step [OF lt wr st2] mmap_loop_done [OF ge])
qed

lemma writes_complete_slave_returns: "\<forall>v d k. sys_write_res (slave_returns n) v d k = int k"
  by (simp add: slave_returns_def)

lemma write_areas_Inr:
  assumes "snd_pcm_file_write_areas env pcm a ofs fr w = Inr w1"
  shows "w1 = w\<lparr>file_pos := file_pos w + int (fr * frame_bytes pcm),
                writes := writes w @ [(fd (private_data pcm), FromAreas a ofs fr, fr * frame_bytes pcm)]\<rparr>"
  using assms
  by (auto simp: snd_pcm_file_write_areas_def sys_write_def snd_pcm_frames_to_bytes_def Let_def
        nat_mult_distrib split: if_splits)

lemma mmap_loop_spins:
  assumes "mmap_loop env pcm sz n ofs xfer w = Some y"
  shows "xfer \<le> sz \<and> sz < n \<longrightarrow> (\<exists>e. y = Inl e)"
proof (rule mmap_loop.raw_induct
    [where P = "\<lambda>env pcm sz n ofs xfer w y. xfer \<le> sz \<and> sz < n \<longrightarrow> (\<exists>e. y = Inl e)",
     OF _ assms], goal_cases)
  case (1 loop env pcm sz n ofs xfer w y)
  show ?case
  proof
    assume b: "xfer \<le> sz \<and> sz < n"
    obtain fr ofs' xfer' where st: "mmap_step pcm sz ofs xfer = (fr, ofs', xfer')"
      by (metis prod_cases3)
    have x': "xfer' \<le> sz" using st b by (auto simp: mmap_step_def Let_def split: if_splits)
    show "\<exists>e. y = Inl e"
    proof (cases "snd_pcm_file_write_areas env pcm (mmap_areas pcm) ofs fr w")
      case (Inl e)
      with 1(2) b st show ?thesis by auto
    next
      case (Inr w1)
      with 1(2) b st have "loop env pcm sz n ofs' xfer' w1 = Some y" by simp
      from 1(1) [OF this] x' b show ?thesis by simp
    qed
  qed
qed

lemma mmap_loop_one:
  assumes res: "mmap_loop env pcm sz n ofs 0 w = Some (Inr w')"
    and n: "0 < n" "n \<le> sz" "ofs + n \<le> B" "buffer_size pcm = B"
  shows "map (fst \<circ> snd) (new_writes w w') = [FromAreas (mmap_areas pcm) ofs (min sz (B - ofs))]"
proof -
  have st: "mmap_step pcm sz ofs 0 =
      (min sz (B - ofs), (if ofs + min sz (B - ofs) = B then 0 else ofs + min sz (B - ofs)),
       min sz (B - ofs))"
    using n(4) by (auto simp: mmap_step_def Let_def min_def)
  have ge: "\<not> min sz (B - ofs) < n" using n(2,3) by auto
  from res n(1) st obtain w1 where
    wa: "snd_pcm_file_write_areas env pcm (mmap_areas pcm) ofs (min sz (B - ofs)) w = Inr w1"
    and rest: "mmap_loop env pcm sz n
                 (if ofs + min sz (B - ofs) = B then 0 else ofs + min sz (B - ofs))
                 (min sz (B - ofs)) w1 = Some (Inr w')"
    by (subst (asm) mmap_loop.simps) (auto split: sum.splits)
  from rest ge have "w' = w1" by (simp add: mmap_loop_done)
  with write_areas_Inr [OF wa] show ?thesis
    by (simp add: new_writes_def)
qed

lemma mmap_loop_two:
  assumes res: "mmap_loop env pcm sz n ofs 0 w = Some (Inr w')"
    and n: "0 < n" "n \<le> sz" "n \<le> B" "ofs < B" "B < ofs + n" "buffer_size pcm = B"
  shows "map (fst \<circ> snd) (new_writes w w') =
           [FromAreas (mmap_areas pcm) ofs (B - ofs),
            FromAreas (mmap_areas pcm) 0 (min (sz - (B - ofs)) B)]"
proof -
  have st1: "mmap_step pcm sz ofs 0 = (B - ofs, 0, B - ofs)"
    using n(2-6) by (auto simp: mmap_step_def Let_def)
  have st2: "mmap_step pcm sz 0 (B - ofs) =
      (min (sz - (B - ofs)) B, (if min (sz - (B - ofs)) B = B then 0 else min (sz - (B - ofs)) B),
       (B - ofs) + min (sz - (B - ofs)) B)"
    using n(6) by (auto simp: mmap_step_def Let_def min_def)
  have lt: "B - ofs < n" using n(4,5) by auto
  have ge: "\<not> (B - ofs) + min (sz - (B - ofs)) B < n" using n(2-5) by (auto simp: min_def)
  from res n(1) st1 obtain w1 where
    wa1: "snd_pcm_file_write_areas env pcm (mmap_areas pcm) ofs (B - ofs) w = Inr w1"
    and rest1: "mmap_loop env pcm sz n 0 (B - ofs) w1 = Some (Inr w')"
    by (subst (asm) mmap_loop.simps) (auto split: sum.splits)
  from rest1 lt st2 obtain w2 where
    wa2: "snd_pcm_file_write_areas env pcm (mmap_areas pcm) 0 (min (sz - (B - ofs)) B) w1 = Inr w2"
    and rest2: "mmap_loop env pcm sz n
                  (if min (sz - (B - ofs)) B = B then 0 else min (sz - (B - ofs)) B)
                  ((B - ofs) + min (sz - (B - ofs)) B) w2 = Some (Inr w')"
    by (subst (asm) mmap_loop.simps) (auto split: sum.splits)
  from rest2 ge have "w' = w2" by (simp add: mmap_loop_done)
  with write_areas_Inr [OF wa1] write_areas_Inr [OF wa2] show ?thesis
    by (simp add: new_writes_def)
qed

lemma mmap_forward_Inr:
  assumes "snd_pcm_file_mmap_forward env pcm sz w = Some (Inr (n, w'))" "0 < n"
  shows "buffer_size pcm \<noteq> 0 \<and>
         n = slave_res env w (slave (private_data pcm)) (SMmapForward sz) \<and>
         mmap_loop env pcm sz (nat n) (appl_ptr pcm mod buffer_size pcm) 0
           (w\<lparr>slave_calls := slave_calls w @ [(slave (private_data pcm), SMmapForward sz)]\<rparr>)
           = Some (Inr w')"
  using assms
  by (auto simp: snd_pcm_file_mmap_forward_def slave_call_def Let_def
           split: if_splits option.splits sum.splits)

text \<open>
  Claim C4. Whenever \<open>snd_pcm_file_mmap_forward\<close> returns a positive \<open>n\<close> that is at
  most the buffer size, \<open>n\<close> is what the slave forwarded, \<open>n\<close> is at most the \<open>sz\<close>
  frames asked for, and the call wrote once, from the offset of the application pointer,
  when offset plus \<open>n\<close> does not pass the end of the buffer, and twice, first from the
  offset up to the end of the buffer and then from offset zero, when it does. Each write
  copies one contiguous range of the buffer. The call does return \<open>n\<close> when the slave
  forwards \<open>0 < n \<le> sz\<close> frames, \<open>n\<close> at most the buffer size, and every \<open>write\<close> is
  complete.
\<close>

theorem mmap_forward_at_most_two_writes:
  "(snd_pcm_file_mmap_forward env pcm sz w = Some (Inr (n, w')) \<and> 0 < n \<and>
    nat n \<le> buffer_size pcm \<longrightarrow>
      n = slave_res env w (slave (private_data pcm)) (SMmapForward sz) \<and>
      n \<le> int sz \<and>
      map (fst \<circ> snd) (new_writes w w') =
        (if appl_ptr pcm mod buffer_size pcm + nat n \<le> buffer_size pcm
         then [FromAreas (mmap_areas pcm) (appl_ptr pcm mod buffer_size pcm)
                 (min sz (buffer_size pcm - appl_ptr pcm mod buffer_size pcm))]
         else [FromAreas (mmap_areas pcm) (appl_ptr pcm mod buffer_size pcm)
                 (buffer_size pcm - appl_ptr pcm mod buffer_size pcm),
               FromAreas (mmap_areas pcm) 0
                 (min (sz - (buffer_size pcm - appl_ptr pcm mod buffer_size pcm))
                      (buffer_size pcm))])) \<and>
   (slave_res env w (slave (private_data pcm)) (SMmapForward sz) = n \<and> 0 < n \<and> n \<le> int sz \<and>
    nat n \<le> buffer_size pcm \<and> (\<forall>v d k. sys_write_res env v d k = int k) \<longrightarrow>
      (\<exists>v. snd_pcm_file_mmap_forward env pcm sz w = Some (Inr (n, v))))"
proof (intro conjI impI)
  assume a: "snd_pcm_file_mmap_forward env pcm sz w = Some (Inr (n, w')) \<and> 0 < n \<and>
    nat n \<le> buffer_size pcm"
  let ?B = "buffer_size pcm"
  let ?ofs = "appl_ptr pcm mod ?B"
  from a have res: "snd_pcm_file_mmap_forward env pcm sz w = Some (Inr (n, w'))"
    and n0: "0 < n" and nB: "nat n \<le> ?B" by simp_all
  define w1 where
    "w1 = w\<lparr>slave_calls := slave_calls w @ [(slave (private_data pcm), SMmapForward sz)]\<rparr>"
  from mmap_forward_Inr [OF res n0] have B: "?B \<noteq> 0"
    and sl: "n = slave_res env w (slave (private_data pcm)) (SMmapForward sz)"
    and lp: "mmap_loop env pcm sz (nat n) ?ofs 0 w1 = Some (Inr w')"
    unfolding w1_def by blast+
  have ww: "writes w1 = writes w" by (simp add: w1_def)
  from sl show "n = slave_res env w (slave (private_data pcm)) (SMmapForward sz)" .
  have nsz: "nat n \<le> sz"
  proof (rule ccontr)
    assume "\<not> nat n \<le> sz"
    with mmap_loop_spins [OF lp] show False by simp
  qed
  with n0 show "n \<le> int sz" by simp
  have ofs: "?ofs < ?B" using B by simp
  have nn: "0 < nat n" using n0 by simp
  have nw: "new_writes w w' = new_writes w1 w'" using ww by (simp add: new_writes_def)
  show "map (fst \<circ> snd) (new_writes w w') =
        (if ?ofs + nat n \<le> ?B
         then [FromAreas (mmap_areas pcm) ?ofs (min sz (?B - ?ofs))]
         else [FromAreas (mmap_areas pcm) ?ofs (?B - ?ofs),
               FromAreas (mmap_areas pcm) 0 (min (sz - (?B - ?ofs)) ?B)])"
  proof (cases "?ofs + nat n \<le> ?B")
    case True
    with mmap_loop_one [OF lp nn nsz True refl] show ?thesis by (simp add: nw)
  next
    case False
    then have cross: "?B < ?ofs + nat n" by simp
    from mmap_loop_two [OF lp nn nsz nB ofs cross refl] False show ?thesis by (simp add: nw)
  qed
next
  assume b: "slave_res env w (slave (private_data pcm)) (SMmapForward sz) = n \<and> 0 < n \<and>
    n \<le> int sz \<and> nat n \<le> buffer_size pcm \<and> (\<forall>v d k. sys_write_res env v d k = int k)"
  let ?B = "buffer_size pcm"
  let ?ofs = "appl_ptr pcm mod ?B"
  from b have sl: "slave_res env w (slave (private_data pcm)) (SMmapForward sz) = n"
    and n: "0 < n" "n \<le> int sz" "nat n \<le> ?B"
    and wr: "\<forall>v d k. sys_write_res env v d k = int k" by simp_all
  have B: "0 < ?B" using n by auto
  then have ofs: "?ofs < ?B" by simp
  have nn: "0 < nat n" "nat n \<le> sz" using n by auto
  show "\<exists>v. snd_pcm_file_mmap_forward env pcm sz w = Some (Inr (n, v))"
  proof (cases "?ofs + nat n \<le> ?B")
    case True
    show ?thesis
      using B n(1) sl
      by (simp add: snd_pcm_file_mmap_forward_def slave_call_def Let_def
            mmap_loop_no_wrap [OF nn True refl wr])
  next
    case False
    then have cross: "?B < ?ofs + nat n" by simp
    show ?thesis
      using B n(1) sl
      by (simp add: snd_pcm_file_mmap_forward_def slave_call_def Let_def
            mmap_loop_wrap [OF nn n(3) ofs cross refl wr])
  qed
qed

text \<open>
  Claim C4 in a buffer of 8 frames with the application pointer at 6 and 4 frames
  forwarded: two writes of 2 frames each.
\<close>

theorem mmap_forward_at_most_two_writes_witness:
  "slave_res (slave_returns 4) pcm_world0 (slave (private_data pcm0)) (SMmapForward 4) = 4 \<and>
   nat 4 \<le> buffer_size pcm0 \<and>
   (\<forall>v d k. sys_write_res (slave_returns 4) v d k = int k) \<and>
   (\<exists>v. snd_pcm_file_mmap_forward (slave_returns 4) pcm0 4 pcm_world0 = Some (Inr (4, v))) \<and>
   snd_pcm_file_mmap_forward (slave_returns 4) pcm0 4 pcm_world0 =
     Some (Inr (4, pcm_world0\<lparr>slave_calls := [(1, SMmapForward 4)], file_pos := 16,
                         writes := [(5, FromAreas 2 6 2, 8), (5, FromAreas 2 0 2, 8)]\<rparr>)) \<and>
   map (fst \<circ> snd) (new_writes pcm_world0
      (pcm_world0\<lparr>slave_calls := [(1, SMmapForward 4)], file_pos := 16,
                         writes := [(5, FromAreas 2 6 2, 8), (5, FromAreas 2 0 2, 8)]\<rparr>))
     = [FromAreas 2 6 2, FromAreas 2 0 2]"
proof -
  have lp: "mmap_loop (slave_returns 4) pcm0 4 4 6 0 (pcm_world0\<lparr>slave_calls := [(1, SMmapForward 4)]\<rparr>) =
      Some (Inr (pcm_world0\<lparr>slave_calls := [(1, SMmapForward 4)], file_pos := 16,
                         writes := [(5, FromAreas 2 6 2, 8), (5, FromAreas 2 0 2, 8)]\<rparr>))"
    using mmap_loop_wrap [of 4 4 8 6 pcm0 "slave_returns 4"
            "pcm_world0\<lparr>slave_calls := [(1, SMmapForward 4)]\<rparr>"]
    by (simp add: writes_complete_slave_returns pcm0_def file0_def pcm_world0_def)
  have ev: "snd_pcm_file_mmap_forward (slave_returns 4) pcm0 4 pcm_world0 =
     Some (Inr (4, pcm_world0\<lparr>slave_calls := [(1, SMmapForward 4)], file_pos := 16,
                         writes := [(5, FromAreas 2 6 2, 8), (5, FromAreas 2 0 2, 8)]\<rparr>))"
    using lp
    by (simp add: snd_pcm_file_mmap_forward_def slave_call_def slave_returns_def pcm0_def
          file0_def pcm_world0_def)
  have hyp: "slave_res (slave_returns 4) pcm_world0 (slave (private_data pcm0)) (SMmapForward 4) = 4"
    "nat 4 \<le> buffer_size pcm0" "\<forall>v d k. sys_write_res (slave_returns 4) v d k = int k"
    by (simp_all add: slave_returns_def pcm0_def)
  from mmap_forward_at_most_two_writes [of "slave_returns 4" pcm0 4 pcm_world0 4
      "pcm_world0\<lparr>slave_calls := [(1, SMmapForward 4)], file_pos := 16,
                         writes := [(5, FromAreas 2 6 2, 8), (5, FromAreas 2 0 2, 8)]\<rparr>"] ev hyp
  have tot: "\<exists>v. snd_pcm_file_mmap_forward (slave_returns 4) pcm0 4 pcm_world0 = Some (Inr (4, v))"
    and wr: "map (fst \<circ> snd) (new_writes pcm_world0
      (pcm_world0\<lparr>slave_calls := [(1, SMmapForward 4)], file_pos := 16,
                         writes := [(5, FromAreas 2 6 2, 8), (5, FromAreas 2 0 2, 8)]\<rparr>))
     = [FromAreas 2 6 2, FromAreas 2 0 2]"
    by (simp_all add: pcm0_def)
  from hyp tot wr ev show ?thesis by blast
qed

text \<open>
  Claim C1. For \<open>snd_pcm_file_mmap_forward\<close> the number of bytes written follows the
  size asked for, not the number of frames the slave forwarded: in a buffer of 8 frames
  of 4 bytes, with the application pointer at 0, a request for 6 frames of which the
  slave forwards 2 writes 6 frames, 24 bytes, where 2 frames are 8 bytes.
\<close>

theorem mmap_forward_short_transfer:
  "snd_pcm_file_mmap_forward (slave_returns 2) (pcm0\<lparr>appl_ptr := 0\<rparr>) 6 pcm_world0 =
     Some (Inr (2, pcm_world0\<lparr>slave_calls := [(1, SMmapForward 6)], file_pos := 24,
                              writes := [(5, FromAreas 2 0 6, 24)]\<rparr>)) \<and>
   snd_pcm_frames_to_bytes (pcm0\<lparr>appl_ptr := 0\<rparr>) 2 = 8"
proof -
  have "mmap_loop (slave_returns 2) (pcm0\<lparr>appl_ptr := 0\<rparr>) 6 2 0 0
          (pcm_world0\<lparr>slave_calls := [(1, SMmapForward 6)]\<rparr>) =
        Some (Inr (pcm_world0\<lparr>slave_calls := [(1, SMmapForward 6)], file_pos := 24,
                              writes := [(5, FromAreas 2 0 6, 24)]\<rparr>))"
    using mmap_loop_no_wrap [of 2 6 0 8 "pcm0\<lparr>appl_ptr := 0\<rparr>" "slave_returns 2"
            "pcm_world0\<lparr>slave_calls := [(1, SMmapForward 6)]\<rparr>"]
    by (simp add: writes_complete_slave_returns pcm0_def file0_def pcm_world0_def)
  then show ?thesis
    by (simp add: snd_pcm_file_mmap_forward_def slave_call_def slave_returns_def pcm0_def
          file0_def pcm_world0_def snd_pcm_frames_to_bytes_def)
qed

subsection \<open>Rewinding\<close>

text \<open>
  Claim C5 fails when the seek fails. The mirror is a pipe at offset 40; the slave
  rewinds 5 frames of 4 bytes; the plugin returns \<open>-1\<close>, not 5, and the offset stays
  at 40.
\<close>

theorem file_rewind_seek_failure:
  "slave_res (slave_returns 5) (pcm_world0\<lparr>seekable := False, file_pos := 40\<rparr>)
     (slave (private_data pcm0)) (SRewind 5) = 5 \<and>
   fst (snd_pcm_file_rewind (slave_returns 5) pcm0 5
          (pcm_world0\<lparr>seekable := False, file_pos := 40\<rparr>)) = - 1 \<and>
   file_pos (snd (snd_pcm_file_rewind (slave_returns 5) pcm0 5
          (pcm_world0\<lparr>seekable := False, file_pos := 40\<rparr>))) = 40"
  by (simp add: snd_pcm_file_rewind_def sys_lseek_cur_def slave_call_def
        snd_pcm_frames_to_bytes_def slave_returns_def pcm0_def file0_def pcm_world0_def Let_def)

text \<open>
  Claim C5, amended. Let \<open>f\<close> be what the slave's rewind returns. When \<open>0 < f\<close>, the
  mirror can seek and its offset is at least \<open>f\<close> times the frame size, the plugin returns
  \<open>f\<close> and the offset moves back by exactly \<open>f\<close> times the frame size. When \<open>0 < f\<close> and
  the seek fails, the plugin returns the \<open>-1\<close> of \<open>lseek\<close> and the offset is unchanged.
  When \<open>f \<le> 0\<close>, the plugin returns \<open>f\<close> and the offset is unchanged.
\<close>

theorem file_rewind_seeks_back:
  "(0 < slave_res env w (slave (private_data pcm)) (SRewind frames) \<and> seekable w \<and>
    slave_res env w (slave (private_data pcm)) (SRewind frames) * int (frame_bytes pcm) \<le> file_pos w \<longrightarrow>
      fst (snd_pcm_file_rewind env pcm frames w) =
        slave_res env w (slave (private_data pcm)) (SRewind frames) \<and>
      file_pos (snd (snd_pcm_file_rewind env pcm frames w)) =
        file_pos w - slave_res env w (slave (private_data pcm)) (SRewind frames) * int (frame_bytes pcm)) \<and>
   (0 < slave_res env w (slave (private_data pcm)) (SRewind frames) \<and>
    \<not> (seekable w \<and>
       slave_res env w (slave (private_data pcm)) (SRewind frames) * int (frame_bytes pcm) \<le> file_pos w) \<longrightarrow>
      fst (snd_pcm_file_rewind env pcm frames w) = - 1 \<and>
      file_pos (snd (snd_pcm_file_rewind env pcm frames w)) = file_pos w) \<and>
   (slave_res env w (slave (private_data pcm)) (SRewind frames) \<le> 0 \<longrightarrow>
      fst (snd_pcm_file_rewind env pcm frames w) =
        slave_res env w (slave (private_data pcm)) (SRewind frames) \<and>
      file_pos (snd (snd_pcm_file_rewind env pcm frames w)) = file_pos w)"
  by (auto simp: snd_pcm_file_rewind_def sys_lseek_cur_def slave_call_def
        snd_pcm_frames_to_bytes_def Let_def)

text \<open>
  Claim C5, amended, at a rewind of 5 frames from offset 40, at the same rewind from
  offset 8, and at a slave that fails with \<open>-32\<close>.
\<close>

theorem file_rewind_seeks_back_witness:
  "fst (snd_pcm_file_rewind (slave_returns 5) pcm0 5 (pcm_world0\<lparr>file_pos := 40\<rparr>)) = 5 \<and>
   file_pos (snd (snd_pcm_file_rewind (slave_returns 5) pcm0 5 (pcm_world0\<lparr>file_pos := 40\<rparr>))) = 20 \<and>
   fst (snd_pcm_file_rewind (slave_returns 5) pcm0 5 (pcm_world0\<lparr>file_pos := 8\<rparr>)) = - 1 \<and>
   file_pos (snd (snd_pcm_file_rewind (slave_returns 5) pcm0 5 (pcm_world0\<lparr>file_pos := 8\<rparr>))) = 8 \<and>
   fst (snd_pcm_file_rewind (slave_returns (- 32)) pcm0 5 (pcm_world0\<lparr>file_pos := 40\<rparr>)) = - 32 \<and>
   file_pos (snd (snd_pcm_file_rewind (slave_returns (- 32)) pcm0 5 (pcm_world0\<lparr>file_pos := 40\<rparr>))) = 40"
  using file_rewind_seeks_back [of "slave_returns 5" "pcm_world0\<lparr>file_pos := 40\<rparr>" pcm0 5]
    file_rewind_seeks_back [of "slave_returns 5" "pcm_world0\<lparr>file_pos := 8\<rparr>" pcm0 5]
    file_rewind_seeks_back [of "slave_returns (- 32)" "pcm_world0\<lparr>file_pos := 40\<rparr>" pcm0 5]
  by (simp add: slave_returns_def pcm0_def file0_def pcm_world0_def)

subsection \<open>Closing\<close>

text \<open>
  Claim C10. \<open>snd_pcm_file_close\<close> returns 0 for every wrapper, every world and every
  answer of the slave; what closing the slave returned is not part of the result.
\<close>

theorem file_close_returns_zero: "fst (snd_pcm_file_close env pcm w) = 0"
  by (simp add: snd_pcm_file_close_def Let_def split: prod.splits)

text \<open>
  Claim C9 fails for a wrapper made from a descriptor of the caller: opened on
  descriptor 5 without a file name, the wrapper closes no descriptor when it is closed.
\<close>

theorem file_close_keeps_caller_fd:
  "snd_pcm_file_open (slave_returns 0) None 5 1 1 pcm_world0 =
     (0, Some \<lparr>private_data = \<lparr>slave = 1, close_slave = 1, fname = None, fd = 5\<rparr>,
               frame_bytes = 0, buffer_size = 0, appl_ptr = 0, mmap_areas = 0\<rparr>, pcm_world0) \<and>
   closed_fds (snd (snd_pcm_file_close (slave_returns 0)
      \<lparr>private_data = \<lparr>slave = 1, close_slave = 1, fname = None, fd = 5\<rparr>,
       frame_bytes = 0, buffer_size = 0, appl_ptr = 0, mmap_areas = 0\<rparr> pcm_world0)) = []"
  by (simp add: snd_pcm_file_open_def snd_pcm_file_close_def slave_call_def sys_close_def
        slave_returns_def pcm_world0_def Let_def)

text \<open>
  Claim C9, amended. \<open>snd_pcm_file_close\<close> closes the mirror descriptor if and only if
  the wrapper has a file name, and closes the slave if and only if \<open>close_slave\<close> is
  set. A wrapper that \<open>snd_pcm_file_open\<close> returns has the file name, the slave and the
  \<open>close_slave\<close> it was given; its descriptor is the one \<open>open\<close> returned when a file
  name was given, and the caller's descriptor otherwise. So a wrapper made from a path
  closes its descriptor, and a wrapper made from a descriptor leaves it open.
\<close>

theorem file_close_descriptor_ownership:
  "closed_fds (snd (snd_pcm_file_close env pcm w)) =
     closed_fds w @ (if fname (private_data pcm) \<noteq> None then [fd (private_data pcm)] else []) \<and>
   slave_calls (snd (snd_pcm_file_close env pcm w)) =
     slave_calls w @ (if close_slave (private_data pcm) \<noteq> 0
                      then [(slave (private_data pcm), SClose)] else []) \<and>
   (snd_pcm_file_open env name d slv cs v = (0, Some pcm, v') \<longrightarrow>
      fname (private_data pcm) = name \<and> close_slave (private_data pcm) = cs \<and>
      slave (private_data pcm) = slv \<and>
      fd (private_data pcm) = (case name of None \<Rightarrow> d | Some path \<Rightarrow> sys_open_res env v path))"
  by (auto simp: snd_pcm_file_close_def snd_pcm_file_open_def slave_call_def sys_close_def Let_def
           split: if_splits option.splits)

text \<open>Claim C9, amended, at a wrapper opened on the path \<open>out.raw\<close>.\<close>

theorem file_close_descriptor_ownership_witness:
  "closed_fds (snd (snd_pcm_file_close (slave_returns 0)
      \<lparr>private_data = \<lparr>slave = 1, close_slave = 1, fname = Some ''out.raw'', fd = 3\<rparr>,
       frame_bytes = 0, buffer_size = 0, appl_ptr = 0, mmap_areas = 0\<rparr> pcm_world0)) = [3] \<and>
   slave_calls (snd (snd_pcm_file_close (slave_returns 0)
      \<lparr>private_data = \<lparr>slave = 1, close_slave = 1, fname = Some ''out.raw'', fd = 3\<rparr>,
       frame_bytes = 0, buffer_size = 0, appl_ptr = 0, mmap_areas = 0\<rparr> pcm_world0)) = [(1, SClose)] \<and>
   snd_pcm_file_open (slave_returns 0) (Some ''out.raw'') (- 1) 1 1 pcm_world0 =
     (0, Some \<lparr>private_data = \<lparr>slave = 1, close_slave = 1, fname = Some ''out.raw'', fd = 3\<rparr>,
               frame_bytes = 0, buffer_size = 0, appl_ptr = 0, mmap_areas = 0\<rparr>, pcm_world0)"
proof -
  have o: "snd_pcm_file_open (slave_returns 0) (Some ''out.raw'') (- 1) 1 1 pcm_world0 =
     (0, Some \<lparr>private_data = \<lparr>slave = 1, close_slave = 1, fname = Some ''out.raw'', fd = 3\<rparr>,
               frame_bytes = 0, buffer_size = 0, appl_ptr = 0, mmap_areas = 0\<rparr>, pcm_world0)"
    by (simp add: snd_pcm_file_open_def slave_returns_def pcm_world0_def Let_def)
  from file_close_descriptor_ownership [of "slave_returns 0"
      "\<lparr>private_data = \<lparr>slave = 1, close_slave = 1, fname = Some ''out.raw'', fd = 3\<rparr>,
       frame_bytes = 0, buffer_size = 0, appl_ptr = 0, mmap_areas = 0\<rparr>" pcm_world0
      "Some ''out.raw''" "- 1" 1 1 pcm_world0 pcm_world0] o
  show ?thesis by (simp add: pcm_world0_def)
qed

end
